theory Spec2Isabelle
  imports Complex_Main "HOL-Library.Multiset"
begin

section \<open>Numeric conventions\<close>

text \<open>
  The terrain engine computes with C \<^verbatim>\<open>float\<close> (IEEE 754 binary32) and \<^verbatim>\<open>double\<close>
  (binary64). Values of both types are embedded as \<^typ>\<open>real\<close>.

  \<open>b32\<close> and \<open>b64\<close> round a real number to the format: to the nearest number with a
  significand of 24 (53) bits, ties to the even significand, with gradual underflow
  below \<open>2^-126\<close> (\<open>2^-1022\<close>). A result beyond the largest finite number of the format
  is \<open>\<plusminus> 2^128\<close> (\<open>\<plusminus> 2^1024\<close>): these two values stand for \<open>\<plusminus>\<infinity>\<close>, they are larger in
  magnitude than every finite number of the format, and rounding gives them exactly when
  IEEE arithmetic overflows. NaN has no representation; the places where the source can
  produce one say so. Each operation is taken to be rounded to its own type, one at a
  time (no fused multiply-add, no wider intermediate format).

  Every arithmetic operation is followed by its rounding where the outcome depends on
  it: in the camera filter and the sort key of the view, in the cell index of
  \<open>putHeight\<close>, in the positions and cutoffs of generated elements, in the samples of
  \<open>collideLine\<close> and in the coordinate mapping of the collision field. The height
  interpolation \<open>getHeight\<close>, the field interpolation \<open>point\<close> with \<open>normal\<close>, the formula of
  \<open>hitThresh\<close> and the shading bytes of elements are kept in exact arithmetic; closed
  evaluations of them are made at inputs on which the machine arithmetic is exact as well.
  \<open>pow2 e\<close> is \<open>2\<close> to the integer power \<open>e\<close>.

  Conversions between number types are written out:
  \<^item> \<open>trunc\<close> is truncation towards zero;
  \<^item> \<open>int_of_float\<close> is the conversion of a floating value to \<^verbatim>\<open>int\<close>: the truncation
    when that is a value of \<^verbatim>\<open>int\<close>, and undefined (\<open>None\<close>) otherwise, in particular
    for \<open>\<plusminus>\<infinity>\<close>;
  \<^item> \<open>u32\<close> is the conversion of an \<^verbatim>\<open>int\<close> to \<^verbatim>\<open>unsigned int\<close>;
  \<^item> \<open>u8\<close> is the conversion of an in-range integer to \<^verbatim>\<open>unsigned char\<close>;
  \<^item> \<open>c_rem\<close> is C's remainder \<^verbatim>\<open>%\<close> on \<^verbatim>\<open>int\<close> (the quotient truncates), for a
    divisor other than zero.
\<close>

definition pow2 :: "int \<Rightarrow> real" where
  "pow2 e = (if 0 \<le> e then 2 ^ nat e else 1 / 2 ^ nat (- e))"

definition round_even :: "real \<Rightarrow> int" where
  "round_even y =
     (let f = \<lfloor>y\<rfloor>; r = y - of_int f
      in if r < 1/2 then f else if r > 1/2 then f + 1 else if even f then f else f + 1)"

text \<open>
  \<open>rnd p emin\<close> rounds to \<open>p\<close> significant bits with the least normal exponent \<open>emin\<close>;
  \<open>sat m\<close> replaces everything from \<open>m\<close> upwards by \<open>m\<close> and everything from \<open>- m\<close>
  downwards by \<open>- m\<close>.
\<close>

definition rnd :: "nat \<Rightarrow> int \<Rightarrow> real \<Rightarrow> real" where
  "rnd p emin x =
     (if x = 0 then 0
      else let e = max \<lfloor>log 2 \<bar>x\<bar>\<rfloor> emin - (int p - 1)
           in of_int (round_even (x / pow2 e)) * pow2 e)"

definition sat :: "real \<Rightarrow> real \<Rightarrow> real" where
  "sat m y = (if y \<ge> m then m else if y \<le> - m then - m else y)"

definition b32 :: "real \<Rightarrow> real" where
  "b32 x = sat (2 ^ 128) (rnd 24 (- 126) x)"

definition b64 :: "real \<Rightarrow> real" where
  "b64 x = sat (2 ^ 1024) (rnd 53 (- 1022) x)"

definition trunc :: "real \<Rightarrow> int" where
  "trunc r = (if 0 \<le> r then \<lfloor>r\<rfloor> else \<lceil>r\<rceil>)"

definition int_of_float :: "real \<Rightarrow> int option" where
  "int_of_float r = (if - (2 ^ 31) - 1 < r \<and> r < 2 ^ 31 then Some (trunc r) else None)"

definition u32 :: "int \<Rightarrow> int" where
  "u32 i = i mod 2 ^ 32"

definition u8 :: "int \<Rightarrow> nat" where
  "u8 i = nat (i mod 256)"

definition c_rem :: "int \<Rightarrow> int \<Rightarrow> int" where
  "c_rem a b = a - b * (sgn a * sgn b * (\<bar>a\<bar> div \<bar>b\<bar>))"


section \<open>Landscape: data model (T\_MAP.hpp)\<close>

text \<open>
  \<^verbatim>\<open>LandscapeType\<close> is stored in one byte; the record keeps the ordinal, the constants
  name it. The position fields \<^verbatim>\<open>x,y,z\<close> of the source are called \<open>ex, ey, ez\<close> here,
  so that \<open>x\<close>, \<open>y\<close> and \<open>z\<close> stay available as variables.
\<close>

definition LANDSCAPE_TYPE_HEIGHT :: nat where "LANDSCAPE_TYPE_HEIGHT = 0"
definition LANDSCAPE_TYPE_ROAD :: nat where "LANDSCAPE_TYPE_ROAD = 1"
definition LANDSCAPE_TYPE_TREE :: nat where "LANDSCAPE_TYPE_TREE = 2"
definition LANDSCAPE_TYPE_GRASS :: nat where "LANDSCAPE_TYPE_GRASS = 3"
definition LANDSCAPE_TYPE_FLOWER :: nat where "LANDSCAPE_TYPE_FLOWER = 4"
definition LANDSCAPE_TYPE_STONE :: nat where "LANDSCAPE_TYPE_STONE = 5"
definition LANDSCAPE_TYPE_WATER :: nat where "LANDSCAPE_TYPE_WATER = 6"

record LandscapeElement =
  type :: nat
  v0 :: nat
  v1 :: nat
  v2 :: nat
  distanceThresholdSquared :: real
  ex :: real
  ey :: real
  ez :: real

text \<open>\<^verbatim>\<open>LandscapeElement()\<close>: the value-initialised element, every field zero.\<close>

definition LandscapeElement0 :: LandscapeElement where
  "LandscapeElement0 =
     \<lparr>type = 0, v0 = 0, v1 = 0, v2 = 0, distanceThresholdSquared = 0, ex = 0, ey = 0, ez = 0\<rparr>"

text \<open>
  The arrays \<^verbatim>\<open>map_height\<close> (16-bit cells) and \<^verbatim>\<open>map_boden\<close> (8-bit cells) are lists of the
  cell values in row-major order; \<^verbatim>\<open>Array<LandscapeElement> scape\<close> is a list.
\<close>

record Landscape =
  scape :: "LandscapeElement list"
  minX :: real
  maxX :: real
  minY :: real
  maxY :: real
  minZ :: real
  maxZ :: real
  map_height_w :: nat
  map_height_h :: nat
  map_height :: "nat list"
  map_boden :: "nat list"


section \<open>Landscape: height lookups and the camera filter (T\_MAP.cpp)\<close>

text \<open>
  \<^verbatim>\<open>Landscape::collectLandscape\<close>. The output array holds pointers into \<open>scape\<close>; a
  pointer is the index of the element it points to. The loop counts \<open>i\<close> down from
  \<open>size - 1\<close> while the pointer \<open>e\<close> walks up from \<open>&scape[0]\<close>; the counter argument
  of \<open>collectLoop\<close> is the number of iterations left, \<open>i + 1\<close>.

  The test is evaluated in \<^verbatim>\<open>float\<close>: three differences, three squares, two sums and
  the product with the detail scale, each rounded. On finite operands none of them can
  give NaN (the sum adds terms that are not negative), and the comparison treats \<open>\<infinity>\<close>
  as IEEE does: \<open>\<infinity> < \<infinity>\<close> is false.
\<close>

definition inRange :: "real \<Rightarrow> real \<Rightarrow> real \<Rightarrow> real \<Rightarrow> LandscapeElement \<Rightarrow> bool" where
  "inRange cx cy cz k e =
     (let dx = b32 (ex e - cx); dy = b32 (ey e - cy); dz = b32 (ez e - cz)
      in b32 (b32 (b32 (dx * dx) + b32 (dy * dy)) + b32 (dz * dz))
           < b32 (distanceThresholdSquared e * k))"

fun collectLoop ::
  "LandscapeElement list \<Rightarrow> real \<Rightarrow> real \<Rightarrow> real \<Rightarrow> real \<Rightarrow> nat \<Rightarrow> nat \<Rightarrow> nat list \<Rightarrow> nat list"
where
  "collectLoop sc cx cy cz k 0 e elements = elements"
| "collectLoop sc cx cy cz k (Suc i) e elements =
     collectLoop sc cx cy cz k i (e + 1)
       (if inRange cx cy cz k (sc ! e) then elements @ [e] else elements)"

definition collectLandscape ::
  "Landscape \<Rightarrow> nat list \<Rightarrow> real \<Rightarrow> real \<Rightarrow> real \<Rightarrow> real \<Rightarrow> nat list" where
  "collectLandscape L elements cx cy cz detailScale =
     (let k = detailScale; cleared = [] :: nat list
      in collectLoop (scape L) cx cy cz k (length (scape L)) 0 cleared)"

text \<open>
  \<^verbatim>\<open>Landscape::getHeight\<close>. Inside the clamps the indices are non-negative, so the mixed
  \<^verbatim>\<open>int\<close>/\<^verbatim>\<open>unsigned\<close> comparisons of the source are comparisons of integers.
\<close>

definition getHeight :: "Landscape \<Rightarrow> real \<Rightarrow> real \<Rightarrow> int \<Rightarrow> int \<Rightarrow> real" where
  "getHeight L x z xa za =
     (let x1 = (if x < minX L then minX L else x);
          z1 = (if z < minZ L then minZ L else z);
          x2 = (if x1 > maxX L - 0.001 then maxX L - 0.001 else x1);
          z2 = (if z1 > maxZ L - 0.001 then maxZ L - 0.001 else z1);
          w = int (map_height_w L);
          h = int (map_height_h L);
          xf = (x2 - minX L) * of_int w / (maxX L - minX L);
          zf = (z2 - minZ L) * of_int h / (maxZ L - minZ L);
          xi = \<lfloor>xf\<rfloor>;
          zi = \<lfloor>zf\<rfloor>;
          xi' = xi + xa;
          zi' = zi + za;
          xi0 = (if xi' < 0 then 0 else if xi' \<ge> w then w - 1 else xi');
          zi0 = (if zi' < 0 then 0 else if zi' \<ge> h then h - 1 else zi');
          xi1 = (if xi0 + 1 \<ge> w then xi0 else xi0 + 1);
          zi1 = (if zi0 + 1 \<ge> h then zi0 else zi0 + 1);
          fx = xf - of_int xi;
          fy = zf - of_int zi;
          p00 = real (map_height L ! nat (xi0 + zi0 * w));
          p10 = real (map_height L ! nat (xi1 + zi0 * w));
          p11 = real (map_height L ! nat (xi1 + zi1 * w));
          p01 = real (map_height L ! nat (xi0 + zi1 * w));
          top = (p10 - p00) * fx + p00;
          btm = (p11 - p01) * fx + p01
      in ((btm - top) * fy + top) * (maxY L - minY L) / 65535 + minY L)"



text \<open>\<^verbatim>\<open>Landscape::hitThresh\<close>.\<close>

definition hitThresh :: "real \<Rightarrow> real \<Rightarrow> real \<Rightarrow> real \<Rightarrow> real" where
  "hitThresh center left right thresh =
     (if left < thresh then
        (let dist0 = left - thresh;
             dist1 = center - thresh;
             k = - dist0 + dist1
         in if k = 0 then 0 else - dist0 / k - 1)
      else if right < thresh then
        (let dist0 = center - thresh;
             dist1 = right - thresh;
             k = - dist0 + dist1
         in if k = 0 then 0 else - dist0 / k)
      else 0)"


section \<open>LandscapeCollision (T\_COLL.HPP, T\_COLL.cpp)\<close>

text \<open>
  The collision field has bounds of its own; they are called \<open>cminX\<close>, \<open>cmaxX\<close>,
  \<open>cminZ\<close>, \<open>cmaxZ\<close> here to keep them apart from the Landscape's. \<^verbatim>\<open>width\<close> and
  \<^verbatim>\<open>height\<close> are \<^verbatim>\<open>int\<close>; \<^verbatim>\<open>data\<close> is the byte array, row-major.
\<close>

record LandscapeCollision =
  data :: "nat list"
  width :: int
  height :: int
  cminX :: real
  cmaxX :: real
  cminZ :: real
  cmaxZ :: real

text \<open>
  The coordinate mapping, with the rounding of each \<^verbatim>\<open>double\<close> operation.
\<close>

definition xCoord :: "LandscapeCollision \<Rightarrow> real \<Rightarrow> int" where
  "xCoord C x =
     \<lfloor>b64 (b64 (b64 (x - cminX C) * of_int (width C)) / b64 (cmaxX C - cminX C))\<rfloor>"

definition xPos :: "LandscapeCollision \<Rightarrow> int \<Rightarrow> real" where
  "xPos C x =
     b64 (b64 (b64 (of_int x * b64 (cmaxX C - cminX C)) / of_int (width C)) + cminX C)"

definition zCoord :: "LandscapeCollision \<Rightarrow> real \<Rightarrow> int" where
  "zCoord C z =
     \<lfloor>b64 (b64 (b64 (z - cminZ C) * of_int (height C)) / b64 (cmaxZ C - cminZ C))\<rfloor>"

definition zPos :: "LandscapeCollision \<Rightarrow> int \<Rightarrow> real" where
  "zPos C z =
     b64 (b64 (b64 (of_int z * b64 (cmaxZ C - cminZ C)) / of_int (height C)) + cminZ C)"

text \<open>
  \<^verbatim>\<open>LandscapeCollision::point\<close>, in exact arithmetic.
\<close>

definition point :: "LandscapeCollision \<Rightarrow> real \<Rightarrow> real \<Rightarrow> real" where
  "point C x z =
     (let x2 = (x - cminX C) * of_int (width C) / (cmaxX C - cminX C);
          z2 = (z - cminZ C) * of_int (height C) / (cmaxZ C - cminZ C);
          xp = \<lfloor>x2\<rfloor>;
          zp = \<lfloor>z2\<rfloor>
      in if u32 xp \<ge> u32 (width C - 1) then 255
         else if u32 zp \<ge> u32 (height C - 1) then 255
         else
           let fx = x2 - of_int xp;
               fz = z2 - of_int zp;
               v00 = real (data C ! nat (xp + zp * width C));
               vp0 = real (data C ! nat ((xp + 1) + zp * width C));
               vpp = real (data C ! nat ((xp + 1) + (zp + 1) * width C));
               v0p = real (data C ! nat (xp + (zp + 1) * width C));
               up = (vp0 - v00) * fx + v00;
               dn = (vpp - v0p) * fx + v0p
           in (dn - up) * fz + up)"

definition isPoint :: "LandscapeCollision \<Rightarrow> real \<Rightarrow> real \<Rightarrow> bool" where
  "isPoint C x z = (point C x z \<ge> 128)"

text \<open>\<^verbatim>\<open>LandscapeCollision::normal\<close> returns the pair \<open>(*nx, *nz)\<close>.\<close>

definition normal :: "LandscapeCollision \<Rightarrow> real \<Rightarrow> real \<Rightarrow> real \<times> real" where
  "normal C x z =
     (let dx = (cmaxX C - cminX C) / of_int (width C) * 0.5;
          dz = (cmaxZ C - cminZ C) / of_int (height C) * 0.5;
          ax = point C (x + dx) z - point C (x - dx) z;
          az = point C x (z + dz) - point C x (z - dz);
          d0 = sqrt (ax * ax + az * az);
          d = (if d0 \<noteq> 0 then 1 / d0 else d0)
      in (- ax * d, - az * d))"

text \<open>
  \<^verbatim>\<open>LandscapeCollision::collideLine\<close> returns its \<^verbatim>\<open>bool\<close> and writes four output
  parameters (taken to be non-null); together they are a \<open>LineHit\<close>. The
  \<^verbatim>\<open>while(1)\<close> loop has no bound in the source, so it is a partial function: \<open>None\<close>
  stands for a call that does not return.

  The walk along the segment is in \<^verbatim>\<open>double\<close>, every operation rounded: the position
  is accumulated by \<^verbatim>\<open>xp += xd * step\<close>, so sample \<open>j\<close> is the result of \<open>j\<close> rounded
  additions and in general not \<open>x0 + j * xd * step\<close>. \<open>segLength\<close> is the length \<^verbatim>\<open>d\<close> of
  the segment and \<open>segStep\<close> the step width as the source computes them.
\<close>

record LineHit =
  hit :: bool
  xh :: real
  zh :: real
  xn :: real
  zn :: real

definition noHit :: LineHit where
  "noHit = \<lparr>hit = False, xh = 0, zh = 0, xn = 0, zn = 0\<rparr>"

definition hitAt :: "LandscapeCollision \<Rightarrow> real \<Rightarrow> real \<Rightarrow> LineHit" where
  "hitAt C lx lz = \<lparr>hit = True, xh = lx, zh = lz, xn = fst (normal C lx lz), zn = snd (normal C lx lz)\<rparr>"

partial_function (option) collideLoop ::
  "LandscapeCollision \<Rightarrow> real \<Rightarrow> real \<Rightarrow> real \<Rightarrow> real \<Rightarrow> real \<Rightarrow> real \<Rightarrow> real \<Rightarrow> real \<Rightarrow> LineHit option"
where
  "collideLoop C x0 z0 xd zd d step xp zp =
     (let lx = xp;
          lz = zp;
          xp' = b64 (xp + b64 (xd * step));
          zp' = b64 (zp + b64 (zd * step));
          dx = b64 (xp' - x0);
          dz = b64 (zp' - z0)
      in if b64 (sqrt (b64 (b64 (dx * dx) + b64 (dz * dz)))) > d then
           (if isPoint C xp' zp' then Some (hitAt C lx lz) else Some noHit)
         else if isPoint C xp' zp' then Some (hitAt C lx lz)
         else collideLoop C x0 z0 xd zd d step xp' zp')"

definition segLength :: "real \<Rightarrow> real \<Rightarrow> real \<Rightarrow> real \<Rightarrow> real" where
  "segLength x0 z0 x1 z1 =
     (let xd = b64 (x1 - x0);
          zd = b64 (z1 - z0)
      in b64 (sqrt (b64 (b64 (xd * xd) + b64 (zd * zd)))))"

definition segStep :: "LandscapeCollision \<Rightarrow> real" where
  "segStep C =
     (let stepX = b64 (b64 (cmaxX C - cminX C) / of_int (width C));
          stepZ = b64 (b64 (cmaxZ C - cminZ C) / of_int (height C));
          step = (if stepZ < stepX then b64 (stepZ * 0.5) else b64 (stepX * 0.5));
          stepSpeed = b64 0.1
      in b64 (step * stepSpeed))"

definition collideLine ::
  "LandscapeCollision \<Rightarrow> real \<Rightarrow> real \<Rightarrow> real \<Rightarrow> real \<Rightarrow> LineHit option" where
  "collideLine C x0 z0 x1 z1 =
     (let h = isPoint C x0 z0
      in if h then Some noHit
         else
           let xd = b64 (x1 - x0);
               zd = b64 (z1 - z0);
               d = segLength x0 z0 x1 z1
           in if \<bar>d\<bar> < b64 0.00001 then
                Some (if h then noHit\<lparr>hit := h, xh := x0, zh := z0\<rparr> else noHit\<lparr>hit := h\<rparr>)
              else
                let xd' = b64 (xd / d);
                    zd' = b64 (zd / d);
                    step = segStep C
                in collideLoop C x0 z0 xd' zd' d step x0 z0)"

text \<open>
  The walk, step by step: \<open>advance\<close> is one pass through the two additions of the loop
  body, \<open>sample \<dots> j\<close> the position after \<open>j\<close> passes from the start, and \<open>pastEnd\<close> the
  test \<^verbatim>\<open>sqrt(dx*dx + dz*dz) > d\<close> of the loop on a position.
\<close>

definition advance :: "real \<Rightarrow> real \<Rightarrow> real \<Rightarrow> real \<times> real \<Rightarrow> real \<times> real" where
  "advance xd zd step p = (b64 (fst p + b64 (xd * step)), b64 (snd p + b64 (zd * step)))"

definition sample :: "real \<Rightarrow> real \<Rightarrow> real \<Rightarrow> real \<Rightarrow> real \<Rightarrow> nat \<Rightarrow> real \<times> real" where
  "sample x0 z0 xd zd step j = (advance xd zd step ^^ j) (x0, z0)"

definition pastEnd :: "real \<Rightarrow> real \<Rightarrow> real \<Rightarrow> real \<times> real \<Rightarrow> bool" where
  "pastEnd x0 z0 d p =
     (let dx = b64 (fst p - x0);
          dz = b64 (snd p - z0)
      in b64 (sqrt (b64 (b64 (dx * dx) + b64 (dz * dz)))) > d)"


section \<open>Landscape: element generation (T\_MAP.cpp)\<close>

text \<open>
  The C library's random generator is process-global state. Every generation procedure
  that draws from it reseeds with \<^verbatim>\<open>srand(0)\<close> first, so the state is the number of draws
  since the last reseed, and the sequence that \<^verbatim>\<open>rand()\<close> delivers after \<^verbatim>\<open>srand(0)\<close> is
  a parameter \<open>R\<close> of the procedures (element \<open>k\<close> is the result of draw number \<open>k\<close>,
  a value in \<open>0..RAND_MAX\<close>). The procedures pass a pair of the Landscape and the
  generator state.

  On the non-negative results of \<^verbatim>\<open>rand()\<close> the masks \<^verbatim>\<open>& 255\<close>, \<^verbatim>\<open>& 15\<close>, \<^verbatim>\<open>& 7\<close>, \<^verbatim>\<open>& 1\<close>
  are \<open>mod 256\<close>, \<open>mod 16\<close>, \<open>mod 8\<close>, \<open>mod 2\<close>.

  The raster arguments (\<^verbatim>\<open>mask\<close>, \<^verbatim>\<open>map\<close>, \<^verbatim>\<open>boden\<close>, \<^verbatim>\<open>rgba\<close>) are lists in row-major order,
  read with \<open>!\<close>. The source reads them at \<open>x + z * w\<close> with \<open>x < w\<close>, \<open>z < h\<close> and
  neighbours clamped to the raster, so the reads are within a raster of \<open>w * h\<close> cells.
  Loop counters and raster coordinates are natural numbers. The parameters \<^verbatim>\<open>mask\<close> and
  \<^verbatim>\<open>map\<close> of the source are called \<open>msk\<close> and \<open>m\<close>.
\<close>

type_synonym rng = nat

definition srand0 :: rng where
  "srand0 = 0"

definition rand :: "(nat \<Rightarrow> nat) \<Rightarrow> rng \<Rightarrow> nat \<times> rng" where
  "rand R g = (R g, Suc g)"

definition push_back :: "LandscapeElement \<Rightarrow> Landscape \<Rightarrow> Landscape" where
  "push_back e L = L\<lparr>scape := scape L @ [e]\<rparr>"

text \<open>
  The world position of raster coordinate \<open>t\<close> on an axis of \<open>n\<close> cells:
  \<^verbatim>\<open>(maxX-minX)*t/w+minX\<close>, and the same in Z.
\<close>

definition worldX :: "Landscape \<Rightarrow> real \<Rightarrow> real \<Rightarrow> real" where
  "worldX L t w = (maxX L - minX L) * t / w + minX L"

definition worldZ :: "Landscape \<Rightarrow> real \<Rightarrow> real \<Rightarrow> real" where
  "worldZ L t h = (maxZ L - minZ L) * t / h + minZ L"

text \<open>
  The five reads that \<open>setHeightMap\<close>, \<open>insertEmpty\<close>, \<open>setStones\<close>, \<open>setWater\<close> and
  \<open>setRoads\<close> make around a cell: the cell, its left and right neighbour, its upper and
  lower neighbour, each clamped to the raster. The result is
  \<^verbatim>\<open>(v__, vn_, vp_, v_n, v_p)\<close>.
\<close>

definition around :: "nat list \<Rightarrow> nat \<Rightarrow> nat \<Rightarrow> nat \<Rightarrow> nat \<Rightarrow> nat \<times> nat \<times> nat \<times> nat \<times> nat" where
  "around m w h x z =
     (m ! (x + z * w),
      m ! ((if x = 0 then 0 else x - 1) + z * w),
      m ! ((if x + 1 \<ge> w then w - 1 else x + 1) + z * w),
      m ! (x + (if z = 0 then 0 else z - 1) * w),
      m ! (x + (if z + 1 \<ge> h then h - 1 else z + 1) * w))"





text \<open>
  \<^verbatim>\<open>Landscape::setTrees\<close>: the body of the inner loop for the cell \<open>(x, z)\<close>, and the
  procedure. The six draws come first; \<^verbatim>\<open>continue\<close> returns the state after them.
\<close>

definition setTrees_cell ::
  "(nat \<Rightarrow> nat) \<Rightarrow> nat list \<Rightarrow> nat list \<Rightarrow> nat \<Rightarrow> nat \<Rightarrow> int \<Rightarrow> nat \<Rightarrow> nat
     \<Rightarrow> Landscape \<times> rng \<Rightarrow> Landscape \<times> rng" where
  "setTrees_cell R msk m w h randomModulo z x s =
     (let COMMONDISTANCE = 200;
          DISTANCERAND = 200;
          (L, g0) = s;
          (r1, g1) = rand R g0;
          (r2, g2) = rand R g1;
          (r3, g3) = rand R g2;
          (r4, g4) = rand R g3;
          (r5, g5) = rand R g4;
          (r6', g6) = rand R g5;
          r6 = r6' mod 256
      in if msk ! (x + z * w) \<noteq> 0 then (L, g6)
         else if m ! (x + z * w) \<noteq> 0 then
           (if c_rem (int r1) randomModulo = 0 then
              (let e_x = worldX L (real x) (real w);
                   e_z = worldZ L (real z) (real h);
                   bigTree = (if r6 div 220 > 0 then 1 else 0 :: nat);
                   e_y = getHeight L e_x e_z 0 0 - 0.25 - 0.75 * real bigTree;
                   siz = COMMONDISTANCE + real (r5 mod 256) / 255 * DISTANCERAND;
                   d = siz * siz
               in (push_back
                     \<lparr>type = LANDSCAPE_TYPE_TREE,
                      v0 = r3 mod 256,
                      v1 = r4 mod 256,
                      v2 = (r6 mod 2) + bigTree * 128,
                      distanceThresholdSquared = d,
                      ex = e_x, ey = e_y, ez = e_z\<rparr> L, g6))
            else (L, g6))
         else (L, g6))"

definition setTrees ::
  "(nat \<Rightarrow> nat) \<Rightarrow> nat list \<Rightarrow> nat list \<Rightarrow> nat \<Rightarrow> nat \<Rightarrow> int
     \<Rightarrow> Landscape \<times> rng \<Rightarrow> Landscape \<times> rng" where
  "setTrees R msk m w h randomModulo s =
     fold (\<lambda>z. fold (\<lambda>x. setTrees_cell R msk m w h randomModulo z x) [0..<w]) [0..<h]
       (fst s, srand0)"

text \<open>
  The smooth pattern \<^verbatim>\<open>sin(px+pz+sin(px*0.4-pz*0.2)+cos(px*0.7)-sin(pz*0.9))*0.5+0.5\<close> that
  \<open>setGrass\<close>, \<open>setFlowers\<close> and \<open>setRoads\<close> evaluate.
\<close>

definition wave :: "real \<Rightarrow> real \<Rightarrow> real" where
  "wave px pz = sin (px + pz + sin (px * 0.4 - pz * 0.2) + cos (px * 0.7) - sin (pz * 0.9)) * 0.5 + 0.5"

text \<open>\<^verbatim>\<open>Landscape::setGrass\<close>: seven draws per cell.\<close>

definition setGrass_cell ::
  "(nat \<Rightarrow> nat) \<Rightarrow> nat list \<Rightarrow> nat list \<Rightarrow> nat \<Rightarrow> nat \<Rightarrow> int \<Rightarrow> nat \<Rightarrow> nat
     \<Rightarrow> Landscape \<times> rng \<Rightarrow> Landscape \<times> rng" where
  "setGrass_cell R msk m w h randomModulo z x s =
     (let DISTANCERAND = 200;
          (L, g0) = s;
          (r1, g1) = rand R g0;
          (r2, g2) = rand R g1;
          (r3, g3) = rand R g2;
          (r4, g4) = rand R g3;
          (r5, g5) = rand R g4;
          (r6, g6) = rand R g5;
          (r7, g7) = rand R g6
      in if msk ! (x + z * w) \<noteq> 0 then (L, g7)
         else if m ! (x + z * w) \<noteq> 0 then
           (let px0 = worldX L (real x) (real w);
                py0 = worldZ L (real z) (real h);
                k = 3 * (maxX L - minX L) / real w;
                dx = getHeight L (px0 + k) py0 0 0 - getHeight L (px0 - k) py0 0 0;
                dy = getHeight L px0 (py0 + k) 0 0 - getHeight L px0 (py0 - k) 0 0;
                d = sqrt (dx * dx + dy * dy);
                notSteep = (d < 0.5)
            in if c_rem (int r1) randomModulo = 0 \<and> notSteep then
                 (let ox = real (r6 mod 256) / 255;
                      oz = real (r7 mod 256) / 255;
                      e_x = worldX L (real x + ox) (real w);
                      e_z = worldZ L (real z + oz) (real h);
                      e_y = getHeight L e_x e_z 0 0;
                      px = e_x * 0.25;
                      pz = e_z * 0.25;
                      f = wave px pz;
                      siz = DISTANCERAND * (real (r5 mod 256) / 255 * 0.75 + 0.25);
                      d = siz * siz
                  in (push_back
                        \<lparr>type = LANDSCAPE_TYPE_GRASS,
                         v0 = u8 (trunc (f * 8 + 18 + 4)),
                         v1 = r3 mod 256,
                         v2 = r4 mod 256,
                         distanceThresholdSquared = d,
                         ex = e_x, ey = e_y, ez = e_z\<rparr> L, g7))
               else (L, g7))
         else (L, g7))"

definition setGrass ::
  "(nat \<Rightarrow> nat) \<Rightarrow> nat list \<Rightarrow> nat list \<Rightarrow> nat \<Rightarrow> nat \<Rightarrow> int
     \<Rightarrow> Landscape \<times> rng \<Rightarrow> Landscape \<times> rng" where
  "setGrass R msk m w h randomModulo s =
     fold (\<lambda>z. fold (\<lambda>x. setGrass_cell R msk m w h randomModulo z x) [0..<w]) [0..<h]
       (fst s, srand0)"

text \<open>\<^verbatim>\<open>Landscape::setFlowers\<close>: seven draws per cell.\<close>

definition setFlowers_cell ::
  "(nat \<Rightarrow> nat) \<Rightarrow> nat list \<Rightarrow> nat list \<Rightarrow> nat \<Rightarrow> nat \<Rightarrow> int \<Rightarrow> nat \<Rightarrow> nat
     \<Rightarrow> Landscape \<times> rng \<Rightarrow> Landscape \<times> rng" where
  "setFlowers_cell R msk m w h randomModulo z x s =
     (let RANDDISTANCE = 75;
          (L, g0) = s;
          (r1, g1) = rand R g0;
          (r2, g2) = rand R g1;
          (r3, g3) = rand R g2;
          (r4, g4) = rand R g3;
          (r5, g5) = rand R g4;
          (r6, g6) = rand R g5;
          (r7, g7) = rand R g6
      in if msk ! (x + z * w) \<noteq> 0 then (L, g7)
         else if m ! (x + z * w) \<noteq> 0 then
           (if c_rem (int r1) randomModulo = 0 then
              (let e_x = worldX L (real x) (real w);
                   e_z = worldZ L (real z) (real h);
                   e_y = getHeight L e_x e_z 0 0 + 0.5;
                   px = e_x * 0.5;
                   pz = e_z * 0.5;
                   f0 = wave px pz;
                   f = (if r3 mod 8 = 0 then real (r4 mod 8) / 7 else f0);
                   e_v2 = r7 mod 256;
                   siz = RANDDISTANCE * (real (r5 mod 256) / 255 * 0.75 + 0.25)
                           * (real e_v2 / 255 * 0.5 + 0.5);
                   d = siz * siz
               in (push_back
                     \<lparr>type = LANDSCAPE_TYPE_FLOWER,
                      v0 = nat (trunc (f * 4) mod 4),
                      v1 = r5 mod 256,
                      v2 = e_v2,
                      distanceThresholdSquared = d,
                      ex = e_x, ey = e_y, ez = e_z\<rparr> L, g7))
            else (L, g7))
         else (L, g7))"

definition setFlowers ::
  "(nat \<Rightarrow> nat) \<Rightarrow> nat list \<Rightarrow> nat list \<Rightarrow> nat \<Rightarrow> nat \<Rightarrow> int
     \<Rightarrow> Landscape \<times> rng \<Rightarrow> Landscape \<times> rng" where
  "setFlowers R msk m w h randomModulo s =
     fold (\<lambda>z. fold (\<lambda>x. setFlowers_cell R msk m w h randomModulo z x) [0..<w]) [0..<h]
       (fst s, srand0)"
















text \<open>
  \<^verbatim>\<open>Landscape::setHeightMap\<close>.

  \<^verbatim>\<open>Array::resize\<close> keeps the leading elements and fills up with value-initialised
  ones. The scan writes through \<^verbatim>\<open>&scape[k]\<close> into the slots reserved by the first
  resize; a write at or beyond the end of the array has no defined result and is
  \<open>None\<close>.

  The loops advance by the strides. A stride of zero divides by zero in the first resize;
  negative strides are not modelled; both are \<open>None\<close>.

  \<open>pow2div x t\<close> is \<^verbatim>\<open>int tx = t; while((x % tx)!=0) tx>>=1;\<close>. It starts from the
  raster size, positive inside the scan, and stops at 1 at the latest.
\<close>

definition resize :: "nat \<Rightarrow> LandscapeElement list \<Rightarrow> LandscapeElement list" where
  "resize n xs = take n xs @ replicate (n - length xs) LandscapeElement0"

fun pow2div :: "nat \<Rightarrow> nat \<Rightarrow> nat" where
  "pow2div x t = (if t = 0 then 0 else if x mod t \<noteq> 0 then pow2div x (t div 2) else t)"

function strideLoop :: "nat \<Rightarrow> nat \<Rightarrow> nat \<Rightarrow> (nat \<Rightarrow> 's \<Rightarrow> 's option) \<Rightarrow> 's \<Rightarrow> 's option" where
  "strideLoop x w step body s =
     (if x < w then
        (if step = 0 then None
         else case body x s of
                None \<Rightarrow> None
              | Some s' \<Rightarrow> strideLoop (x + step) w step body s')
      else Some s)"
  by pat_completeness auto
termination
  by (relation "measure (\<lambda>(x, w, step, body, s). w - x)") auto

declare pow2div.simps [simp del]
declare strideLoop.simps [simp del]

text \<open>
  The body of the inner loop is given in three parts: \<^verbatim>\<open>border\<close>; the curvature \<^verbatim>\<open>v\<close>
  that is compared with \<^verbatim>\<open>steepThresh\<close>; and the assignments through \<^verbatim>\<open>e\<close> to the
  slot \<^verbatim>\<open>scape[k]\<close>, which leave \<^verbatim>\<open>v2\<close> as the resize made it.
\<close>

definition isBorder :: "nat \<Rightarrow> nat \<Rightarrow> int \<Rightarrow> int \<Rightarrow> nat \<Rightarrow> nat \<Rightarrow> bool" where
  "isBorder w h stepX stepZ x z =
     (x = 0 \<or> int x \<ge> u32 (int w - stepX) \<or> z = 0 \<or> int z \<ge> u32 (int h - stepZ))"

definition curvature :: "nat list \<Rightarrow> nat \<Rightarrow> nat \<Rightarrow> nat \<Rightarrow> nat \<Rightarrow> real" where
  "curvature m w h x z =
     (let (v00, vn0, vp0, v0n, v0p) = around m w h x z;
          vx = (real vn0 + real vp0) * 0.5 - real v00;
          vy = (real v0n + real v0p) * 0.5 - real v00
      in sqrt (vx * vx + vy * vy))"

definition setHeightMap_elem ::
  "Landscape \<Rightarrow> nat list \<Rightarrow> nat \<Rightarrow> nat \<Rightarrow> real \<Rightarrow> nat list \<Rightarrow> bool \<Rightarrow> nat \<Rightarrow> nat \<Rightarrow> nat
     \<Rightarrow> LandscapeElement \<Rightarrow> LandscapeElement" where
  "setHeightMap_elem L m w h distFact boden border tz z x e =
     (let COMMONDISTANCE = 750;
          (v00, vn0, vp0, v0n, v0p) = around m w h x z;
          dx = real vp0 - real vn0;
          dy = real v0p - real v0n;
          d = sqrt (dx * dx + dy * dy);
          dx' = (if d \<noteq> 0 then dx / d else dx);
          tx = pow2div x w;
          siz0 = real tx / real w;
          siz1 = (if tz < tx then real tz / real h else siz0);
          siz2 = siz1 * COMMONDISTANCE;
          siz3 = siz2 * distFact;
          siz = (if border \<and> (x + z) mod 8 = 0
                 then maxX L - minX L + maxZ L - minZ L else siz3)
      in e\<lparr>ex := worldX L (real x) (real w),
           ey := (maxY L - minY L) * real v00 / 65535 + minY L,
           ez := worldZ L (real z) (real h),
           type := LANDSCAPE_TYPE_HEIGHT,
           v0 := u8 (trunc (128 + dx' * 127)),
           v1 := boden ! (x + z * w),
           distanceThresholdSquared := siz * siz\<rparr>)"

definition setHeightMap_cell ::
  "nat list \<Rightarrow> nat list \<Rightarrow> nat \<Rightarrow> nat \<Rightarrow> int \<Rightarrow> int \<Rightarrow> real \<Rightarrow> real \<Rightarrow> nat list \<Rightarrow> nat
     \<Rightarrow> nat \<Rightarrow> nat \<Rightarrow> Landscape \<times> nat \<Rightarrow> (Landscape \<times> nat) option" where
  "setHeightMap_cell msk m w h stepX stepZ distFact steepThresh boden tz z x s =
     (let L = fst s;
          k = snd s;
          border = isBorder w h stepX stepZ x z
      in if msk ! (x + z * w) \<noteq> 0 \<and> \<not> border then Some (L, k)
         else if curvature m w h x z < steepThresh \<and> \<not> border then Some (L, k)
         else if k \<ge> length (scape L) then None
         else Some (L\<lparr>scape := (scape L)
                        [k := setHeightMap_elem L m w h distFact boden border tz z x (scape L ! k)]\<rparr>,
                    k + 1))"

definition setHeightMap ::
  "nat list \<Rightarrow> nat list \<Rightarrow> nat \<Rightarrow> nat \<Rightarrow> int \<Rightarrow> int \<Rightarrow> real \<Rightarrow> real \<Rightarrow> nat list
     \<Rightarrow> Landscape \<Rightarrow> Landscape option" where
  "setHeightMap msk m w h stepX stepZ distFact steepThresh boden L =
     (if stepX \<le> 0 \<or> stepZ \<le> 0 then None
      else
        (let L0 = L\<lparr>map_boden := boden, map_height := m, map_height_w := w, map_height_h := h\<rparr>;
             k0 = length (scape L0);
             L1 = L0\<lparr>scape := resize (k0 + (w div nat stepX) * (h div nat stepZ)) (scape L0)\<rparr>
         in case strideLoop 0 h (nat stepZ)
                   (\<lambda>z. strideLoop 0 w (nat stepX)
                          (setHeightMap_cell msk m w h stepX stepZ distFact steepThresh boden
                             (pow2div z h) z))
                   (L1, k0) of
              None \<Rightarrow> None
            | Some (L2, k) \<Rightarrow> Some (L2\<lparr>scape := resize k (scape L2)\<rparr>)))"


section \<open>Sequences of generation calls and the element invariant\<close>














section \<open>DelaunayView: LandscapeRaw (T\_DLNAY.HPP, T\_DLNAY.CPP)\<close>

text \<open>
  The C library's \<^verbatim>\<open>qsort\<close> is not part of the repository. It is taken by its contract:
  the array is rearranged so that the comparison function is non-positive between
  neighbours, for a comparison function that is a consistent order. The model is the
  insertion sort below; the order of elements that compare equal is left open by the
  contract, and no statement in this theory depends on it. A comparison function
  returns \<open>None\<close> where its own evaluation is undefined, and then so is the sort.
\<close>

fun qsort_insert :: "('a \<Rightarrow> 'a \<Rightarrow> int option) \<Rightarrow> 'a \<Rightarrow> 'a list \<Rightarrow> 'a list option" where
  "qsort_insert cmp a [] = Some [a]"
| "qsort_insert cmp a (b # bs) =
     (case cmp a b of
        None \<Rightarrow> None
      | Some c \<Rightarrow> if c \<le> 0 then Some (a # b # bs)
                  else map_option (\<lambda>cs. b # cs) (qsort_insert cmp a bs))"

fun qsort :: "('a \<Rightarrow> 'a \<Rightarrow> int option) \<Rightarrow> 'a list \<Rightarrow> 'a list option" where
  "qsort cmp [] = Some []"
| "qsort cmp (a # as) =
     (case qsort cmp as of None \<Rightarrow> None | Some bs \<Rightarrow> qsort_insert cmp a bs)"

text \<open>
  \<open>s32\<close> is the result of an \<^verbatim>\<open>int\<close> operation: its mathematical value when that is a
  value of \<^verbatim>\<open>int\<close>, undefined otherwise.
\<close>

definition s32 :: "int \<Rightarrow> int option" where
  "s32 i = (if - (2 ^ 31) \<le> i \<and> i < 2 ^ 31 then Some i else None)"

text \<open>
  \<^verbatim>\<open>Vector\<close>: three coordinates. Its header is not part of the sources at hand; the
  coordinates are taken as real numbers, and they are rounded where the source assigns
  them to a \<^verbatim>\<open>float\<close>.
\<close>

record Vector =
  vx :: real
  vy :: real
  vz :: real

text \<open>
  The file-level statics \<^verbatim>\<open>eSortCX, eSortCY, eSortCZ\<close> are \<^verbatim>\<open>float\<close>s, written by
  \<open>collectElements\<close> just before the sort and read by the comparison function only; they
  are passed to it as a \<open>Vector\<close>. \<open>distanceSquared\<close> is the squared distance as the
  comparison function forms it, in \<^verbatim>\<open>float\<close>. It is converted to \<^verbatim>\<open>int\<close> before the
  subtraction; the conversion is undefined from \<open>2^31\<close> on.
\<close>

definition distanceSquared :: "Vector \<Rightarrow> LandscapeElement \<Rightarrow> real" where
  "distanceSquared c e =
     (let dx = b32 (ex e - vx c); dy = b32 (ey e - vy c); dz = b32 (ez e - vz c)
      in b32 (b32 (b32 (dx * dx) + b32 (dy * dy)) + b32 (dz * dz)))"

definition elementSortFunc ::
  "LandscapeElement list \<Rightarrow> Vector \<Rightarrow> nat \<Rightarrow> nat \<Rightarrow> int option" where
  "elementSortFunc sc eSortC a b =
     (let e0 = sc ! a;
          e1 = sc ! b
      in case int_of_float (distanceSquared eSortC e1) of
           None \<Rightarrow> None
         | Some k1 \<Rightarrow>
             (case int_of_float (distanceSquared eSortC e0) of
                None \<Rightarrow> None
              | Some k0 \<Rightarrow> (case s32 (k1 - k0) of None \<Rightarrow> None | Some k \<Rightarrow> s32 (- k))))"

type_synonym LandscapeTriangle = "int \<times> int \<times> int"

definition triangleSortFunc :: "LandscapeTriangle \<Rightarrow> LandscapeTriangle \<Rightarrow> int option" where
  "triangleSortFunc a b = s32 (fst a - fst b)"

text \<open>The Landscape pointer \<^verbatim>\<open>scape\<close> of the view is the field \<open>landscape\<close>.\<close>

record LandscapeRaw =
  landscape :: Landscape
  points :: "real list"
  elements :: "nat list"
  triangles :: "LandscapeTriangle list"
  types :: "nat list"
  vertices :: "Vector list"
  parameters :: "Vector list"

text \<open>
  \<^verbatim>\<open>LandscapeRaw::collectElements\<close>. The camera position and the \<^verbatim>\<open>double\<close> detail scale
  are converted to \<^verbatim>\<open>float\<close> on the way into \<open>collectLandscape\<close> and into the statics.
\<close>

definition collectElements :: "LandscapeRaw \<Rightarrow> Vector \<Rightarrow> real \<Rightarrow> LandscapeRaw option" where
  "collectElements R cameraPos detailScale =
     (let collected = collectLandscape (landscape R) (elements R)
                        (b32 (vx cameraPos)) (b32 (vy cameraPos)) (b32 (vz cameraPos))
                        (b32 detailScale);
          eSortC = \<lparr>vx = b32 (vx cameraPos), vy = b32 (vy cameraPos), vz = b32 (vz cameraPos)\<rparr>
      in map_option (\<lambda>es. R\<lparr>elements := es\<rparr>)
           (qsort (elementSortFunc (scape (landscape R)) eSortC) collected))"

text \<open>
  \<^verbatim>\<open>LandscapeRaw::delaunay\<close>. The Delaunator is not part of the repository either; it is
  the parameter \<open>delaunator\<close>, from the flat point array to the flat index array.
\<close>

definition isGround :: "nat \<Rightarrow> bool" where
  "isGround t = (t = LANDSCAPE_TYPE_WATER \<or> t = LANDSCAPE_TYPE_STONE
                 \<or> t = LANDSCAPE_TYPE_HEIGHT \<or> t = LANDSCAPE_TYPE_ROAD)"

definition pushGround :: "LandscapeElement \<Rightarrow> LandscapeRaw \<Rightarrow> LandscapeRaw" where
  "pushGround e R =
     (if isGround (type e) then
        R\<lparr>points := points R @ [ex e, ez e],
          types := types R @ [type e],
          vertices := vertices R @ [\<lparr>vx = ex e, vy = ey e, vz = ez e\<rparr>],
          parameters := parameters R @
            [\<lparr>vx = real (v0 e) / 255, vy = real (v1 e) / 255, vz = real (v2 e) / 255\<rparr>]\<rparr>
      else R)"

definition delaunay :: "(real list \<Rightarrow> int list) \<Rightarrow> LandscapeRaw \<Rightarrow> LandscapeRaw option" where
  "delaunay delaunator R =
     (let R0 = R\<lparr>triangles := [], points := [], types := [], vertices := [], parameters := []\<rparr>;
          R1 = fold (\<lambda>i. pushGround (scape (landscape R) ! (elements R ! i)))
                 [0..<length (elements R)] R0;
          tri = delaunator (points R1);
          ts = map (\<lambda>j. (tri ! (j * 3 + 0), tri ! (j * 3 + 1), tri ! (j * 3 + 2)))
                 [0..<length tri div 3]
      in map_option (\<lambda>ts'. R1\<lparr>triangles := ts'\<rparr>) (qsort triangleSortFunc ts))"

definition update ::
  "(real list \<Rightarrow> int list) \<Rightarrow> LandscapeRaw \<Rightarrow> Vector \<Rightarrow> real \<Rightarrow> LandscapeRaw option" where
  "update delaunator R cameraPos detailScale =
     (case collectElements R cameraPos detailScale of
        None \<Rightarrow> None
      | Some R' \<Rightarrow> delaunay delaunator R')"


section \<open>Example inputs\<close>

text \<open>A 2 by 2 collision field over \<open>[0,2] \<times> [0,2]\<close>, every byte 200.\<close>

definition solidField :: LandscapeCollision where
  "solidField = \<lparr>data = [200, 200, 200, 200], width = 2, height = 2,
                  cminX = 0, cmaxX = 2, cminZ = 0, cmaxZ = 2\<rparr>"

text \<open>
  The field of the collision scenarios: \<open>[0,10] \<times> [0,10]\<close> with 100 by 100 cells.
\<close>

definition scenarioField :: LandscapeCollision where
  "scenarioField = \<lparr>data = replicate 10000 0, width = 100, height = 100,
                     cminX = 0, cmaxX = 10, cminZ = 0, cmaxZ = 10\<rparr>"

text \<open>
  A 4 by 4 collision field over \<open>[0,4] \<times> [0,4]\<close> with no obstacle: every byte is 0.
  Positions with \<open>x \<ge> 3\<close> or \<open>z \<ge> 3\<close> have no right or lower neighbour and read as 255.
\<close>

definition openField :: LandscapeCollision where
  "openField = \<lparr>data = replicate 16 0, width = 4, height = 4,
                 cminX = 0, cmaxX = 4, cminZ = 0, cmaxZ = 4\<rparr>"

text \<open>
  The height interpolation scenario: world bounds \<open>0..1\<close> in X and Z, heights \<open>0..100\<close>,
  a 2 by 2 heightmap with the rows \<open>[0, 65535]\<close> and \<open>[65535, 0]\<close>.
\<close>

definition checker2x2 :: Landscape where
  "checker2x2 = \<lparr>scape = [], minX = 0, maxX = 1, minY = 0, maxY = 100, minZ = 0, maxZ = 1,
                  map_height_w = 2, map_height_h = 2, map_height = [0, 65535, 65535, 0],
                  map_boden = [0, 0, 0, 0]\<rparr>"

text \<open>
  Three elements on the X axis, stored in the order far, near, middle: at distance 10,
  1 and 5 from the origin, each with the squared cutoff 1000.
\<close>

definition farElem :: LandscapeElement where
  "farElem = LandscapeElement0\<lparr>distanceThresholdSquared := 1000, ex := 10\<rparr>"

definition nearElem :: LandscapeElement where
  "nearElem = LandscapeElement0\<lparr>distanceThresholdSquared := 1000, ex := 1\<rparr>"

definition midElem :: LandscapeElement where
  "midElem = LandscapeElement0\<lparr>distanceThresholdSquared := 1000, ex := 5\<rparr>"

definition threeElems :: LandscapeRaw where
  "threeElems = \<lparr>landscape = checker2x2\<lparr>scape := [farElem, nearElem, midElem]\<rparr>, points = [],
                  elements = [], triangles = [], types = [], vertices = [], parameters = []\<rparr>"

text \<open>
  Two elements at the edge of their cutoff \<open>1 + 2^-23\<close>, seen from the origin with the
  detail scale \<open>1 + 2^-23\<close>: one at \<open>(1, 2^-11, 0)\<close>, one at \<open>(1, 0, 0)\<close>.
\<close>

definition edgeElems :: Landscape where
  "edgeElems = checker2x2\<lparr>scape :=
     [LandscapeElement0\<lparr>distanceThresholdSquared := 1 + 1 / 2 ^ 23, ex := 1, ey := 1 / 2 ^ 11\<rparr>,
      LandscapeElement0\<lparr>distanceThresholdSquared := 1 + 1 / 2 ^ 23, ex := 1\<rparr>]\<rparr>"

definition origin :: Vector where
  "origin = \<lparr>vx = 0, vy = 0, vz = 0\<rparr>"



section \<open>Rounding to a floating-point format\<close>

lemma pow2_powr: "pow2 e = 2 powr of_int e"
  by (simp add: pow2_def powr_real_of_int divide_inverse)

lemma pow2_pos [simp]: "0 < pow2 e"
  by (simp add: pow2_def)

lemma pow2_nonneg [simp]: "0 \<le> pow2 e"
  by (simp add: pow2_def)

lemma pow2_neq0 [simp]: "pow2 e \<noteq> 0"
  by (simp add: pow2_def)

lemma pow2_abs [simp]: "\<bar>pow2 e\<bar> = pow2 e"
  by (simp add: pow2_def)

lemma pow2_add: "pow2 (a + b) = pow2 a * pow2 b"
  by (simp add: pow2_powr powr_add)

lemma pow2_mono: "a \<le> b \<Longrightarrow> pow2 a \<le> pow2 b"
  by (simp add: pow2_powr)

lemma pow2_nat: "0 \<le> e \<Longrightarrow> pow2 e = of_int (2 ^ nat e)"
  by (simp add: pow2_def)

lemma round_even_near:
  assumes "of_int m - 1/2 < y" "y < of_int m + 1/2"
  shows "round_even y = m"
proof -
  have "of_int (m - 1) \<le> y" using assms by simp
  then have lo: "m - 1 \<le> \<lfloor>y\<rfloor>" using le_floor_iff by blast
  have "y < of_int (m + 1)" using assms by simp
  then have hi: "\<lfloor>y\<rfloor> < m + 1" using floor_less_iff by blast
  consider "\<lfloor>y\<rfloor> = m" | "\<lfloor>y\<rfloor> = m - 1" using lo hi by linarith
  then show ?thesis
  proof cases
    case 1
    then show ?thesis using assms by (simp add: round_even_def Let_def)
  next
    case 2
    then show ?thesis using assms by (simp add: round_even_def Let_def)
  qed
qed

lemma round_even_int: "round_even (of_int m) = m"
  by (rule round_even_near) simp_all

lemma round_even_bounds: "\<lfloor>y\<rfloor> \<le> round_even y" "round_even y \<le> \<lfloor>y\<rfloor> + 1"
  by (simp_all add: round_even_def Let_def)

lemma round_even_mono:
  assumes "a \<le> b"
  shows "round_even a \<le> round_even b"
proof (cases "\<lfloor>a\<rfloor> = \<lfloor>b\<rfloor>")
  case True
  then have "a - of_int \<lfloor>a\<rfloor> \<le> b - of_int \<lfloor>b\<rfloor>" using assms by simp
  then show ?thesis using True by (auto simp: round_even_def Let_def)
next
  case False
  have "\<lfloor>a\<rfloor> \<le> \<lfloor>b\<rfloor>" using assms by (rule floor_mono)
  with False have "\<lfloor>a\<rfloor> + 1 \<le> \<lfloor>b\<rfloor>" by simp
  with round_even_bounds(2) [of a] round_even_bounds(1) [of b] show ?thesis by linarith
qed

lemma round_even_error: "\<bar>of_int (round_even y) - y\<bar> \<le> 1/2"
proof -
  have "of_int \<lfloor>y\<rfloor> \<le> y" "y < of_int \<lfloor>y\<rfloor> + 1" by linarith+
  then show ?thesis by (auto simp: round_even_def Let_def)
qed

lemma round_even_minus: "round_even (- y) = - round_even y"
proof (cases "y = of_int \<lfloor>y\<rfloor>")
  case True
  then obtain m where "y = of_int m" ..
  then have "- y = of_int (- m)" by simp
  then show ?thesis using \<open>y = of_int m\<close> round_even_int by metis
next
  case False
  define f where "f = \<lfloor>y\<rfloor>"
  have fl: "of_int f < y" "y < of_int f + 1" using False unfolding f_def by linarith+
  have nf: "\<lfloor>- y\<rfloor> = - f - 1"
    using fl by (intro floor_unique) simp_all
  show ?thesis
    using fl by (auto simp: round_even_def Let_def nf f_def [symmetric])
qed


lemma floor_log2:
  assumes "0 < x"
  shows "pow2 \<lfloor>log 2 x\<rfloor> \<le> x" "x < pow2 (\<lfloor>log 2 x\<rfloor> + 1)"
proof -
  have "2 powr (of_int \<lfloor>log 2 x\<rfloor>) \<le> x"
    using assms by (subst le_log_iff [symmetric]) simp_all
  then show "pow2 \<lfloor>log 2 x\<rfloor> \<le> x"
    by (simp add: pow2_powr)
  have "log 2 x < of_int (\<lfloor>log 2 x\<rfloor> + 1)" by linarith
  then show "x < pow2 (\<lfloor>log 2 x\<rfloor> + 1)"
    using assms by (simp add: log_less_iff pow2_powr del: of_int_add)
qed

lemma floor_log2_eq:
  assumes "pow2 n \<le> x" "x < pow2 (n + 1)"
  shows "\<lfloor>log 2 x\<rfloor> = n"
proof -
  have "0 < pow2 n" by simp
  then have pos: "0 < x" using assms(1) by linarith
  have "of_int n \<le> log 2 x" using assms(1) pos by (simp add: le_log_iff pow2_powr)
  moreover have "log 2 x < of_int (n + 1)" using assms(2) pos by (simp add: log_less_iff pow2_powr)
  ultimately show ?thesis by (intro floor_unique) simp_all
qed

lemma rnd_minus: "rnd p emin (- x) = - rnd p emin x"
  by (simp add: rnd_def Let_def round_even_minus)

lemma rnd_at:
  assumes "pow2 n \<le> \<bar>x\<bar>" "\<bar>x\<bar> < pow2 (n + 1)" "emin \<le> n"
  shows "rnd p emin x = of_int (round_even (x / pow2 (n - (int p - 1)))) * pow2 (n - (int p - 1))"
proof -
  have "0 < pow2 n" by simp
  then have pos: "0 < \<bar>x\<bar>" using assms(1) by linarith
  have "\<lfloor>log 2 \<bar>x\<bar>\<rfloor> = n" using assms(1,2) by (rule floor_log2_eq)
  then show ?thesis using pos assms(3) by (simp add: rnd_def Let_def max_def)
qed

lemma rnd_below:
  assumes "x \<noteq> 0" "\<bar>x\<bar> < pow2 emin"
  shows "rnd p emin x = of_int (round_even (x / pow2 (emin - (int p - 1)))) * pow2 (emin - (int p - 1))"
proof -
  have pos: "0 < \<bar>x\<bar>" using assms(1) by simp
  have "pow2 \<lfloor>log 2 \<bar>x\<bar>\<rfloor> < pow2 emin" using floor_log2(1) [OF pos] assms(2) by linarith
  then have "\<lfloor>log 2 \<bar>x\<bar>\<rfloor> < emin" by (simp add: pow2_powr)
  then show ?thesis using assms(1) by (simp add: rnd_def Let_def max_def)
qed

text \<open>
  A positive number lies in a binade \<open>n\<close>, which fixes the quantum of its rounding; below
  \<open>2^emin\<close> the binade is \<open>emin\<close>.
\<close>

lemma rnd_pos_cases:
  assumes "0 < x"
  obtains n where "emin \<le> n" "x < pow2 (n + 1)" "n = emin \<or> pow2 n \<le> x"
    "rnd p emin x = of_int (round_even (x / pow2 (n - (int p - 1)))) * pow2 (n - (int p - 1))"
    "n = max \<lfloor>log 2 x\<rfloor> emin"
proof -
  define n where "n = max \<lfloor>log 2 x\<rfloor> emin"
  have a: "emin \<le> n" by (simp add: n_def)
  have "x < pow2 (\<lfloor>log 2 x\<rfloor> + 1)" using floor_log2(2) [OF assms] .
  also have "\<dots> \<le> pow2 (n + 1)" by (rule pow2_mono) (simp add: n_def)
  finally have b: "x < pow2 (n + 1)" .
  have c: "n = emin \<or> pow2 n \<le> x"
    using floor_log2(1) [OF assms] by (auto simp: n_def max_def)
  have d: "rnd p emin x = of_int (round_even (x / pow2 (n - (int p - 1)))) * pow2 (n - (int p - 1))"
    using assms by (simp add: rnd_def Let_def n_def)
  show ?thesis using that [OF a b c d] n_def by simp
qed

lemma pow2_int_power: "pow2 (int k) = of_int (2 ^ k)"
  by (simp add: pow2_def)

lemma pow2_diff: "pow2 a / pow2 b = pow2 (a - b)"
  by (simp add: pow2_powr powr_diff)

lemma rnd_nonneg: "0 \<le> x \<Longrightarrow> 0 \<le> rnd p emin x"
proof -
  assume "0 \<le> x"
  have "0 \<le> round_even (x / pow2 e)" for e
  proof -
    have "0 \<le> x / pow2 e" using \<open>0 \<le> x\<close> by simp
    then have "round_even 0 \<le> round_even (x / pow2 e)" by (rule round_even_mono)
    moreover have "round_even 0 = 0" using round_even_int [of 0] by simp
    ultimately show ?thesis by simp
  qed
  then show ?thesis by (simp add: rnd_def Let_def)
qed

lemma rnd_upper:
  assumes "0 < x" "x < pow2 (n + 1)"
    and r: "rnd p emin x = of_int (round_even (x / pow2 (n - (int p - 1)))) * pow2 (n - (int p - 1))"
  shows "rnd p emin x \<le> pow2 (n + 1)"
proof -
  define q where "q = pow2 (n - (int p - 1))"
  have q: "0 < q" by (simp add: q_def)
  have "x / q \<le> pow2 (n + 1) / q" using assms(2) q by (intro divide_right_mono) simp_all
  also have "\<dots> = pow2 (int p)" by (simp add: q_def pow2_diff)
  also have "\<dots> = of_int (2 ^ p)" by (rule pow2_int_power)
  finally have "round_even (x / q) \<le> round_even (of_int (2 ^ p))" by (rule round_even_mono)
  then have "round_even (x / q) \<le> 2 ^ p" by (simp only: round_even_int)
  then have "of_int (round_even (x / q)) \<le> (of_int (2 ^ p) :: real)" by (simp only: of_int_le_iff)
  then have "of_int (round_even (x / q)) * q \<le> of_int (2 ^ p) * q"
    using q by (simp only: mult_le_cancel_right_pos)
  also have "of_int (2 ^ p) * q = pow2 (int p) * q" by (simp only: pow2_int_power)
  also have "\<dots> = pow2 (n + 1)" by (simp add: q_def pow2_add [symmetric])
  finally show ?thesis by (simp add: r q_def)
qed

lemma rnd_lower:
  assumes "0 < p" "pow2 n \<le> x"
    and r: "rnd p emin x = of_int (round_even (x / pow2 (n - (int p - 1)))) * pow2 (n - (int p - 1))"
  shows "pow2 n \<le> rnd p emin x"
proof -
  define q where "q = pow2 (n - (int p - 1))"
  have q: "0 < q" by (simp add: q_def)
  have e: "int p - 1 = int (p - 1)" using assms(1) by simp
  have "pow2 n / q = pow2 (int (p - 1))" by (simp add: q_def pow2_diff e)
  also have "\<dots> = of_int (2 ^ (p - 1))" by (rule pow2_int_power)
  finally have "pow2 n / q = of_int (2 ^ (p - 1))" .
  moreover have "pow2 n / q \<le> x / q" using assms(2) q by (intro divide_right_mono) simp_all
  ultimately have "of_int (2 ^ (p - 1)) \<le> x / q" by (simp only:)
  then have "round_even (of_int (2 ^ (p - 1))) \<le> round_even (x / q)" by (rule round_even_mono)
  then have "2 ^ (p - 1) \<le> round_even (x / q)" by (simp only: round_even_int)
  then have "(of_int (2 ^ (p - 1)) :: real) \<le> of_int (round_even (x / q))" by (simp only: of_int_le_iff)
  then have le: "of_int (2 ^ (p - 1)) * q \<le> of_int (round_even (x / q)) * q"
    using q by (simp only: mult_le_cancel_right_pos)
  have "pow2 n = pow2 (int (p - 1)) * q" by (simp add: q_def pow2_add [symmetric] e)
  also have "\<dots> = of_int (2 ^ (p - 1)) * q" by (simp only: pow2_int_power)
  also note le
  finally show ?thesis by (simp only: r q_def)
qed

lemma rnd_mono_pos:
  assumes p: "0 < p" and "0 < x" "x \<le> y"
  shows "rnd p emin x \<le> rnd p emin y"
proof -
  have y: "0 < y" using assms by simp
  obtain n where n: "emin \<le> n" "x < pow2 (n + 1)" "n = emin \<or> pow2 n \<le> x"
    "rnd p emin x = of_int (round_even (x / pow2 (n - (int p - 1)))) * pow2 (n - (int p - 1))"
    "n = max \<lfloor>log 2 x\<rfloor> emin"
    using rnd_pos_cases [OF assms(2)] by metis
  obtain k where k: "emin \<le> k" "y < pow2 (k + 1)" "k = emin \<or> pow2 k \<le> y"
    "rnd p emin y = of_int (round_even (y / pow2 (k - (int p - 1)))) * pow2 (k - (int p - 1))"
    "k = max \<lfloor>log 2 y\<rfloor> emin"
    using rnd_pos_cases [OF y] by metis
  have "log 2 x \<le> log 2 y" using assms by simp
  then have "\<lfloor>log 2 x\<rfloor> \<le> \<lfloor>log 2 y\<rfloor>" by (rule floor_mono)
  then have nk: "n \<le> k" using n(5) k(5) by simp
  show ?thesis
  proof (cases "n = k")
    case True
    have "x / pow2 (k - (int p - 1)) \<le> y / pow2 (k - (int p - 1))"
      using assms(3) by (intro divide_right_mono) simp_all
    then have "round_even (x / pow2 (k - (int p - 1))) \<le> round_even (y / pow2 (k - (int p - 1)))"
      by (rule round_even_mono)
    then show ?thesis using n(4) k(4) True by (simp add: mult_right_mono)
  next
    case False
    then have lt: "n + 1 \<le> k" using nk by simp
    then have "k \<noteq> emin" using n(1) by simp
    then have "pow2 k \<le> y" using k(3) by simp
    then have "pow2 k \<le> rnd p emin y" using rnd_lower [OF p _ k(4)] by simp
    moreover have "rnd p emin x \<le> pow2 (n + 1)" using rnd_upper [OF assms(2) n(2) n(4)] .
    moreover have "pow2 (n + 1) \<le> pow2 k" using lt by (rule pow2_mono)
    ultimately show ?thesis by linarith
  qed
qed

lemma rnd_mono:
  assumes p: "0 < p" and "x \<le> y"
  shows "rnd p emin x \<le> rnd p emin y"
proof -
  consider "0 < x" | "x \<le> 0" "0 \<le> y" | "y < 0" by linarith
  then show ?thesis
  proof cases
    case 1
    then show ?thesis using rnd_mono_pos [OF p _ assms(2)] by simp
  next
    case 2
    have "0 \<le> rnd p emin (- x)" using 2(1) by (intro rnd_nonneg) simp
    then have "rnd p emin x \<le> 0" by (simp add: rnd_minus)
    moreover have "0 \<le> rnd p emin y" using 2(2) by (rule rnd_nonneg)
    ultimately show ?thesis by linarith
  next
    case 3
    have "rnd p emin (- y) \<le> rnd p emin (- x)"
      using 3 assms(2) by (intro rnd_mono_pos [OF p]) simp_all
    then show ?thesis by (simp add: rnd_minus)
  qed
qed

lemma rnd_error_pos:
  assumes "0 < x"
  shows "\<bar>rnd p emin x - x\<bar> \<le> x * pow2 (- int p) + pow2 (emin - int p)"
proof -
  obtain n where n: "emin \<le> n" "x < pow2 (n + 1)" "n = emin \<or> pow2 n \<le> x"
    "rnd p emin x = of_int (round_even (x / pow2 (n - (int p - 1)))) * pow2 (n - (int p - 1))"
    "n = max \<lfloor>log 2 x\<rfloor> emin"
    using rnd_pos_cases [OF assms] by metis
  define q where "q = pow2 (n - (int p - 1))"
  have q: "0 < q" by (simp add: q_def)
  have "rnd p emin x = of_int (round_even (x / q)) * q"
    using n(4) by (simp only: q_def)
  then have "rnd p emin x - x = (of_int (round_even (x / q)) - x / q) * q"
    using q by (simp add: algebra_simps)
  then have "\<bar>rnd p emin x - x\<bar> = \<bar>of_int (round_even (x / q)) - x / q\<bar> * q"
    using q by (simp add: abs_mult)
  also have "\<dots> \<le> 1/2 * q"
    using round_even_error [of "x / q"] q by (intro mult_right_mono) simp_all
  also have "1/2 * q = pow2 (n - int p)"
  proof -
    have "n - int p + 1 = n - (int p - 1)" by simp
    then have "pow2 (n - int p) * pow2 1 = q" by (simp only: q_def pow2_add [symmetric])
    then show ?thesis by (simp add: pow2_def)
  qed
  finally have e: "\<bar>rnd p emin x - x\<bar> \<le> pow2 (n - int p)" .
  from n(3) show ?thesis
  proof
    assume "n = emin"
    then show ?thesis using e assms by (simp add: add_increasing)
  next
    assume "pow2 n \<le> x"
    then have "pow2 n * pow2 (- int p) \<le> x * pow2 (- int p)" by (simp add: mult_right_mono)
    then have "pow2 (n - int p) \<le> x * pow2 (- int p)" by (simp add: pow2_add [symmetric])
    then show ?thesis using e by (simp add: add_increasing2)
  qed
qed

lemma rnd_exact:
  assumes "\<bar>m\<bar> < 2 ^ p" "emin - (int p - 1) \<le> e"
  shows "rnd p emin (of_int m * pow2 e) = of_int m * pow2 e"
proof (cases "m = 0")
  case True
  then show ?thesis by (simp add: rnd_def)
next
  case False
  define x where "x = of_int m * pow2 e"
  have ax: "\<bar>x\<bar> = of_int \<bar>m\<bar> * pow2 e" by (simp add: x_def abs_mult)
  have pos: "0 < \<bar>x\<bar>" using False by (simp add: x_def)
  obtain n where n: "emin \<le> n" "\<bar>x\<bar> < pow2 (n + 1)" "n = emin \<or> pow2 n \<le> \<bar>x\<bar>"
    "rnd p emin \<bar>x\<bar> = of_int (round_even (\<bar>x\<bar> / pow2 (n - (int p - 1)))) * pow2 (n - (int p - 1))"
    "n = max \<lfloor>log 2 \<bar>x\<bar>\<rfloor> emin"
    using rnd_pos_cases [OF pos] by metis
  have le: "n - (int p - 1) \<le> e"
  proof (cases "n = emin")
    case True
    then show ?thesis using assms(2) by simp
  next
    case False
    then have "pow2 n \<le> \<bar>x\<bar>" using n(3) by simp
    also have "\<bar>x\<bar> < of_int (2 ^ p) * pow2 e"
      unfolding ax using assms(1) by (intro mult_strict_right_mono) (simp_all only: of_int_less_iff pow2_pos)
    also have "of_int (2 ^ p) * pow2 e = pow2 (int p + e)"
      by (simp only: pow2_int_power [symmetric] pow2_add)
    finally have "pow2 n < pow2 (int p + e)" .
    then have "n < int p + e" by (simp add: pow2_powr)
    then show ?thesis by simp
  qed
  define d where "d = nat (e - (n - (int p - 1)))"
  have de: "e = (n - (int p - 1)) + int d" using le by (simp add: d_def)
  have "\<bar>x\<bar> / pow2 (n - (int p - 1)) = of_int \<bar>m\<bar> * pow2 (int d)"
    unfolding ax by (subst de) (simp add: pow2_add)
  also have "\<dots> = of_int (\<bar>m\<bar> * 2 ^ d)" by (simp add: pow2_int_power)
  finally have "round_even (\<bar>x\<bar> / pow2 (n - (int p - 1))) = \<bar>m\<bar> * 2 ^ d"
    by (simp only: round_even_int)
  then have "rnd p emin \<bar>x\<bar> = of_int (\<bar>m\<bar> * 2 ^ d) * pow2 (n - (int p - 1))"
    using n(4) by simp
  also have "\<dots> = of_int \<bar>m\<bar> * (pow2 (int d) * pow2 (n - (int p - 1)))"
    by (simp add: pow2_int_power)
  also have "pow2 (int d) * pow2 (n - (int p - 1)) = pow2 e"
    by (subst de) (simp add: pow2_add)
  finally have r: "rnd p emin \<bar>x\<bar> = \<bar>x\<bar>" by (simp add: ax)
  show ?thesis
  proof (cases "0 \<le> x")
    case True
    then show ?thesis using r by (simp add: x_def)
  next
    case False
    then have "\<bar>x\<bar> = - x" by simp
    then have "rnd p emin (- x) = - x" using r by simp
    then show ?thesis by (simp add: rnd_minus x_def)
  qed
qed


lemma rnd_abs: "\<bar>rnd p emin x\<bar> = rnd p emin \<bar>x\<bar>"
proof (cases "0 \<le> x")
  case True
  then show ?thesis using rnd_nonneg [of x p emin] by simp
next
  case False
  then have "0 \<le> rnd p emin (- x)" by (intro rnd_nonneg) simp
  then show ?thesis using False by (simp add: rnd_minus)
qed

lemma rnd_abs_upper:
  assumes "pow2 n \<le> \<bar>x\<bar>" "\<bar>x\<bar> < pow2 (n + 1)" "emin \<le> n"
  shows "\<bar>rnd p emin x\<bar> \<le> pow2 (n + 1)"
proof -
  have "0 < pow2 n" by simp
  then have pos: "0 < \<bar>x\<bar>" using assms(1) by linarith
  have a: "pow2 n \<le> \<bar>\<bar>x\<bar>\<bar>" "\<bar>\<bar>x\<bar>\<bar> < pow2 (n + 1)" using assms by simp_all
  have "rnd p emin \<bar>x\<bar> \<le> pow2 (n + 1)"
    by (rule rnd_upper [OF pos assms(2) rnd_at [OF a assms(3)]])
  then show ?thesis by (simp add: rnd_abs)
qed

lemma sat_id: "\<bar>y\<bar> < m \<Longrightarrow> sat m y = y"
  by (auto simp: sat_def)

lemma sat_mono: "0 \<le> m \<Longrightarrow> a \<le> b \<Longrightarrow> sat m a \<le> sat m b"
  by (auto simp: sat_def)

lemma sat_minus: "0 < m \<Longrightarrow> sat m (- y) = - sat m y"
  by (auto simp: sat_def)

lemma sat_nonneg: "0 \<le> m \<Longrightarrow> 0 \<le> y \<Longrightarrow> 0 \<le> sat m y"
  by (auto simp: sat_def)

lemma sat_le: "0 \<le> m \<Longrightarrow> 0 \<le> y \<Longrightarrow> sat m y \<le> y"
  by (auto simp: sat_def)

lemma pow2_numeral: "pow2 128 = 2 ^ 128" "pow2 1024 = 2 ^ 1024"
  by (simp_all add: pow2_def)

text \<open>The two formats.\<close>

lemma b32_zero [simp]: "b32 0 = 0"
  by (simp add: b32_def rnd_def sat_def)

lemma b32_mono: "x \<le> y \<Longrightarrow> b32 x \<le> b32 y"
  unfolding b32_def by (intro sat_mono rnd_mono) simp_all

lemma b32_minus: "b32 (- x) = - b32 x"
  by (simp add: b32_def rnd_minus sat_minus)

lemma b32_nonneg: "0 \<le> x \<Longrightarrow> 0 \<le> b32 x"
  using b32_mono [of 0 x] by simp

lemma b32_nonpos: "x \<le> 0 \<Longrightarrow> b32 x \<le> 0"
  using b32_mono [of x 0] by simp

lemma b32_at:
  assumes "pow2 n \<le> \<bar>x\<bar>" "\<bar>x\<bar> < pow2 (n + 1)" "- 126 \<le> n" "n \<le> 126"
  shows "b32 x = of_int (round_even (x / pow2 (n - 23))) * pow2 (n - 23)"
proof -
  have "\<bar>rnd 24 (- 126) x\<bar> \<le> pow2 (n + 1)" using assms(1-3) by (rule rnd_abs_upper)
  also have "\<dots> \<le> pow2 127" using assms(4) by (intro pow2_mono) simp
  also have "\<dots> < 2 ^ 128" by (simp add: pow2_def)
  finally have "b32 x = rnd 24 (- 126) x" by (simp add: b32_def sat_id)
  then show ?thesis using rnd_at [OF assms(1-3), of 24] by simp
qed

lemma b32_near:
  assumes "pow2 n \<le> \<bar>x\<bar>" "\<bar>x\<bar> < pow2 (n + 1)" "- 126 \<le> n" "n \<le> 126"
    and "of_int m - 1/2 < x / pow2 (n - 23)" "x / pow2 (n - 23) < of_int m + 1/2"
  shows "b32 x = of_int m * pow2 (n - 23)"
  by (simp add: b32_at [OF assms(1-4)] round_even_near [OF assms(5,6)])

lemma b32_exact:
  assumes "\<bar>m\<bar> < 2 ^ 24" "- 149 \<le> e" "e \<le> 103"
  shows "b32 (of_int m * pow2 e) = of_int m * pow2 e"
proof -
  have "\<bar>of_int m * pow2 e\<bar> = of_int \<bar>m\<bar> * pow2 e" by (simp add: abs_mult)
  also have "\<dots> \<le> of_int (2 ^ 24) * pow2 103"
  proof (intro mult_mono pow2_mono)
    show "(of_int \<bar>m\<bar> :: real) \<le> of_int (2 ^ 24)"
      using assms(1) by (simp only: of_int_le_iff)
  qed (use assms(3) in simp_all)
  also have "\<dots> < 2 ^ 128" by (simp add: pow2_def)
  finally have "\<bar>of_int m * pow2 e\<bar> < 2 ^ 128" .
  moreover have "rnd 24 (- 126) (of_int m * pow2 e) = of_int m * pow2 e"
    using assms(1,2) by (intro rnd_exact) simp_all
  ultimately show ?thesis by (simp add: b32_def sat_id)
qed

lemma b32_nat: "n \<le> 2 ^ 24 \<Longrightarrow> b32 (real n) = real n"
proof (cases "n = 2 ^ 24")
  case True
  then show ?thesis using b32_exact [of 1 24] by (simp add: pow2_def)
next
  case False
  assume "n \<le> 2 ^ 24"
  with False have "n < 2 ^ 24" by simp
  then have "int n < 2 ^ 24" by (metis of_nat_less_iff of_nat_numeral of_nat_power)
  then show ?thesis using b32_exact [of "int n" 0] by (simp add: pow2_def)
qed

lemma b32_upper:
  assumes "0 \<le> x"
  shows "b32 x \<le> x + x / 2 ^ 24 + 1 / 2 ^ 150"
proof (cases "x = 0")
  case True
  then show ?thesis by simp
next
  case False
  then have pos: "0 < x" using assms by simp
  have "b32 x \<le> rnd 24 (- 126) x"
    unfolding b32_def using rnd_nonneg [OF assms] by (intro sat_le) simp_all
  moreover have "\<bar>rnd 24 (- 126) x - x\<bar> \<le> x / 2 ^ 24 + 1 / 2 ^ 150"
    using rnd_error_pos [OF pos, of 24 "- 126"] by (simp add: pow2_def)
  ultimately show ?thesis by linarith
qed

lemma b32_lower:
  assumes "0 \<le> x" "x < 2 ^ 127"
  shows "x - x / 2 ^ 24 - 1 / 2 ^ 150 \<le> b32 x"
proof (cases "x = 0")
  case True
  then show ?thesis by simp
next
  case False
  then have pos: "0 < x" using assms by simp
  have e: "\<bar>rnd 24 (- 126) x - x\<bar> \<le> x / 2 ^ 24 + 1 / 2 ^ 150"
    using rnd_error_pos [OF pos, of 24 "- 126"] by (simp add: pow2_def)
  have "rnd 24 (- 126) x \<le> rnd 24 (- 126) (2 ^ 127)"
    using assms(2) by (intro rnd_mono) simp_all
  also have "rnd 24 (- 126) (2 ^ 127) = 2 ^ 127"
    using rnd_exact [of 1 24 "- 126" 127] by (simp add: pow2_def)
  finally have "\<bar>rnd 24 (- 126) x\<bar> < 2 ^ 128"
    using rnd_nonneg [OF assms(1), of 24 "- 126"] by simp
  then have "b32 x = rnd 24 (- 126) x" by (simp add: b32_def sat_id)
  then show ?thesis using e by linarith
qed

lemma b64_zero [simp]: "b64 0 = 0"
  by (simp add: b64_def rnd_def sat_def)

lemma b64_mono: "x \<le> y \<Longrightarrow> b64 x \<le> b64 y"
  unfolding b64_def by (intro sat_mono rnd_mono) simp_all

lemma b64_minus: "b64 (- x) = - b64 x"
  by (simp add: b64_def rnd_minus sat_minus)

lemma b64_at:
  assumes "pow2 n \<le> \<bar>x\<bar>" "\<bar>x\<bar> < pow2 (n + 1)" "- 1022 \<le> n" "n \<le> 1022"
  shows "b64 x = of_int (round_even (x / pow2 (n - 52))) * pow2 (n - 52)"
proof -
  have "\<bar>rnd 53 (- 1022) x\<bar> \<le> pow2 (n + 1)" using assms(1-3) by (rule rnd_abs_upper)
  also have "\<dots> \<le> pow2 1023" using assms(4) by (intro pow2_mono) simp
  also have "\<dots> < 2 ^ 1024" by (simp add: pow2_def)
  finally have "b64 x = rnd 53 (- 1022) x" by (simp add: b64_def sat_id)
  then show ?thesis using rnd_at [OF assms(1-3), of 53] by simp
qed

lemma b64_near:
  assumes "pow2 n \<le> \<bar>x\<bar>" "\<bar>x\<bar> < pow2 (n + 1)" "- 1022 \<le> n" "n \<le> 1022"
    and "of_int m - 1/2 < x / pow2 (n - 52)" "x / pow2 (n - 52) < of_int m + 1/2"
  shows "b64 x = of_int m * pow2 (n - 52)"
  by (simp add: b64_at [OF assms(1-4)] round_even_near [OF assms(5,6)])

lemma b64_exact:
  assumes "\<bar>m\<bar> < 2 ^ 53" "- 1074 \<le> e" "e \<le> 970"
  shows "b64 (of_int m * pow2 e) = of_int m * pow2 e"
proof -
  have "\<bar>of_int m * pow2 e\<bar> = of_int \<bar>m\<bar> * pow2 e" by (simp add: abs_mult)
  also have "\<dots> \<le> of_int (2 ^ 53) * pow2 970"
  proof (intro mult_mono pow2_mono)
    show "(of_int \<bar>m\<bar> :: real) \<le> of_int (2 ^ 53)"
      using assms(1) by (simp only: of_int_le_iff)
  qed (use assms(3) in simp_all)
  also have "\<dots> < 2 ^ 1024" by (simp add: pow2_def)
  finally have "\<bar>of_int m * pow2 e\<bar> < 2 ^ 1024" .
  moreover have "rnd 53 (- 1022) (of_int m * pow2 e) = of_int m * pow2 e"
    using assms(1,2) by (intro rnd_exact) simp_all
  ultimately show ?thesis by (simp add: b64_def sat_id)
qed


text \<open>Small integers are numbers of both formats.\<close>

lemma b32_numeral: "(numeral k :: nat) \<le> 2 ^ 24 \<Longrightarrow> b32 (numeral k) = numeral k"
  using b32_nat [of "numeral k"] by simp

lemma b32_one: "b32 1 = 1"
  using b32_nat [of 1] by simp

lemma b64_nat: "n < 2 ^ 53 \<Longrightarrow> b64 (real n) = real n"
proof -
  assume "n < 2 ^ 53"
  then have "int n < 2 ^ 53" by (metis of_nat_less_iff of_nat_numeral of_nat_power)
  then show ?thesis using b64_exact [of "int n" 0] by (simp add: pow2_def)
qed

lemma b64_numeral: "(numeral k :: nat) < 2 ^ 53 \<Longrightarrow> b64 (numeral k) = numeral k"
  using b64_nat [of "numeral k"] by simp

lemma b64_one: "b64 1 = 1"
  using b64_nat [of 1] by simp


section \<open>collideLine from inside an obstacle\<close>

text \<open>
  C5. Whenever the start \<open>(x0, z0)\<close> of the segment is solid, that is, the interpolated
  field value \<open>point C x0 z0\<close> is at least 128, \<open>collideLine\<close> returns, reports no hit,
  and leaves all four output parameters at zero, whatever the end point.
\<close>

theorem collideLine_start_solid:
  assumes "point C x0 z0 \<ge> 128"
  shows "collideLine C x0 z0 x1 z1 = Some noHit"
  using assms by (simp add: collideLine_def isPoint_def)

theorem collideLine_start_solid_witness:
  "point solidField (1/2) (1/2) \<ge> 128 \<and> collideLine solidField (1/2) (1/2) 5 7 = Some noHit
   \<and> \<not> hit noHit"
proof -
  have h: "point solidField (1/2) (1/2) \<ge> 128"
    by (simp add: point_def solidField_def u32_def)
  show ?thesis
    using h collideLine_start_solid [OF h, of 5 7] by (simp add: noHit_def)
qed


section \<open>The camera filter\<close>

lemma collectLoop_filter:
  "e + n = length sc \<Longrightarrow>
   collectLoop sc cx cy cz k n e acc =
     acc @ filter (\<lambda>i. inRange cx cy cz k (sc ! i)) [e..<e + n]"
proof (induction n arbitrary: e acc)
  case 0
  then show ?case by simp
next
  case (Suc n)
  have "[e..<e + Suc n] = e # [Suc e..<Suc e + n]"
    by (simp add: upt_conv_Cons)
  with Suc show ?case by simp
qed

lemma collectLandscape_filter:
  "collectLandscape L old cx cy cz s =
     filter (\<lambda>i. inRange cx cy cz s (scape L ! i)) [0..<length (scape L)]"
  using collectLoop_filter [of 0 "length (scape L)" "scape L" cx cy cz s "[]"]
  by (simp add: collectLandscape_def)

text \<open>
  C7. For every camera position \<open>(cx, cy, cz)\<close> and every detail scale \<open>s\<close>,
  \<open>collectLandscape\<close> returns, whatever the output array held before, the pointers to
  exactly those elements \<open>e\<close> of the master list with
  \<open>(e.x-cx)\<^sup>2 + (e.y-cy)\<^sup>2 + (e.z-cz)\<^sup>2 < e.distanceThresholdSquared * s\<close>, in the order of
  the master list: as indices it is the filtered index range, and dereferenced it is the
  filtered master list. The inequality is the one the program evaluates, with each of its
  nine \<^verbatim>\<open>float\<close> operations rounded.
\<close>

theorem collectLandscape_exact:
  "collectLandscape L old cx cy cz s =
     filter (\<lambda>i. b32 (b32 (b32 ((b32 (ex (scape L ! i) - cx))\<^sup>2)
                            + b32 ((b32 (ey (scape L ! i) - cy))\<^sup>2))
                       + b32 ((b32 (ez (scape L ! i) - cz))\<^sup>2))
                  < b32 (distanceThresholdSquared (scape L ! i) * s)) [0..<length (scape L)]
   \<and> map (\<lambda>i. scape L ! i) (collectLandscape L old cx cy cz s) =
     filter (\<lambda>e. b32 (b32 (b32 ((b32 (ex e - cx))\<^sup>2) + b32 ((b32 (ey e - cy))\<^sup>2))
                       + b32 ((b32 (ez e - cz))\<^sup>2))
                  < b32 (distanceThresholdSquared e * s)) (scape L)"
proof -
  have P: "inRange cx cy cz s =
      (\<lambda>e. b32 (b32 (b32 ((b32 (ex e - cx))\<^sup>2) + b32 ((b32 (ey e - cy))\<^sup>2))
                 + b32 ((b32 (ez e - cz))\<^sup>2))
            < b32 (distanceThresholdSquared e * s))"
    by (rule ext) (simp add: inRange_def Let_def power2_eq_square)
  have B: "map (\<lambda>i. scape L ! i)
             (filter (\<lambda>i. inRange cx cy cz s (scape L ! i)) [0..<length (scape L)])
           = filter (inRange cx cy cz s) (scape L)"
    by (simp add: filter_map [symmetric, unfolded comp_def] map_nth)
  show ?thesis using collectLandscape_filter [of L old cx cy cz s] B by (simp add: P)
qed

text \<open>
  The rounding decides at the edge of the cutoff. The first of the two elements of
  \<open>edgeElems\<close> is within its scaled cutoff in exact arithmetic, by \<open>2^-46\<close>; in \<^verbatim>\<open>float\<close>
  both sides of the comparison are \<open>1 + 2^-22\<close>, and the element is left out.
\<close>

lemma edge_values:
  "b32 (1 / 2048) = 1 / 2048" "b32 (1 / 4194304) = 1 / 4194304"
  "b32 (4194305 / 4194304) = 4194305 / 4194304"
  "b32 (70368760954881 / 70368744177664) = 4194305 / 4194304"
  using b32_exact [of 1 "- 11"] b32_exact [of 1 "- 22"] b32_exact [of 4194305 "- 22"]
    b32_near [of 0 "70368760954881 / 70368744177664" 8388610]
  by (simp_all add: pow2_def)

lemma collectLandscape_edge:
  "collectLandscape edgeElems [] 0 0 0 (1 + 1 / 2 ^ 23) = [1]
   \<and> (1 - 0)\<^sup>2 + (1 / 2 ^ 11 - 0)\<^sup>2 + (0 - 0)\<^sup>2 < (1 + 1 / 2 ^ 23) * (1 + 1 / 2 ^ 23 :: real)"
proof -
  have "collectLandscape edgeElems [] 0 0 0 (1 + 1 / 2 ^ 23) = [1]"
    by (simp add: collectLandscape_def edgeElems_def checker2x2_def LandscapeElement0_def
        inRange_def Let_def numeral_2_eq_2 b32_one edge_values)
  then show ?thesis by (simp add: power2_eq_square)
qed


section \<open>The order of the collected elements\<close>

lemma qsort_insert_ok:
  assumes cmp: "\<And>x y. x \<in> S \<Longrightarrow> y \<in> S \<Longrightarrow> cmp x y = Some (key x - key y)"
    and a: "a \<in> S"
  shows "set bs \<subseteq> S \<Longrightarrow> sorted (map key bs) \<Longrightarrow>
    \<exists>cs. qsort_insert cmp a bs = Some cs \<and> mset cs = add_mset a (mset bs) \<and> sorted (map key cs)"
proof (induction bs)
  case Nil
  then show ?case by simp
next
  case (Cons b bs)
  then have b: "b \<in> S" and bs: "set bs \<subseteq> S" and sb: "sorted (map key bs)"
    and bb: "\<forall>x \<in> set bs. key b \<le> key x"
    by auto
  have c: "cmp a b = Some (key a - key b)" using cmp a b by simp
  show ?case
  proof (cases "key a \<le> key b")
    case True
    then show ?thesis using c Cons.prems(2) by auto
  next
    case False
    obtain cs where cs: "qsort_insert cmp a bs = Some cs" "mset cs = add_mset a (mset bs)"
      "sorted (map key cs)"
      using Cons.IH [OF bs sb] by blast
    have "set cs = insert a (set bs)" using cs(2) by (metis set_mset_add_mset_insert set_mset_mset)
    then have "\<forall>x \<in> set cs. key b \<le> key x" using bb False by auto
    then have "sorted (map key (b # cs))" using cs(3) by simp
    then show ?thesis using c False cs by simp
  qed
qed

lemma qsort_ok:
  assumes cmp: "\<And>x y. x \<in> S \<Longrightarrow> y \<in> S \<Longrightarrow> cmp x y = Some (key x - key y)"
  shows "set xs \<subseteq> S \<Longrightarrow>
    \<exists>cs. qsort cmp xs = Some cs \<and> mset cs = mset xs \<and> sorted (map key cs)"
proof (induction xs)
  case Nil
  then show ?case by simp
next
  case (Cons a as)
  then obtain bs where bs: "qsort cmp as = Some bs" "mset bs = mset as" "sorted (map key bs)"
    by auto
  have "set bs = set as" using bs(2) by (metis set_mset_mset)
  then have sub: "set bs \<subseteq> S" using Cons.prems by simp
  have a: "a \<in> S" using Cons.prems by simp
  from qsort_insert_ok [of S cmp key, OF cmp a sub bs(3)] bs(1,2)
  show ?case by auto
qed

lemma distanceSquared_nonneg: "0 \<le> distanceSquared c e"
  by (simp add: distanceSquared_def Let_def b32_nonneg)

lemma trunc_bounds: "0 \<le> r \<Longrightarrow> r < 2 ^ 31 \<Longrightarrow> 0 \<le> trunc r \<and> trunc r < 2 ^ 31"
  by (simp add: trunc_def floor_less_iff)

lemma elementSortFunc_key:
  assumes "distanceSquared c (sc ! a) < 2 ^ 31" "distanceSquared c (sc ! b) < 2 ^ 31"
  shows "elementSortFunc sc c a b =
     Some (trunc (distanceSquared c (sc ! a)) - trunc (distanceSquared c (sc ! b)))"
proof -
  have ka: "0 \<le> trunc (distanceSquared c (sc ! a))" "trunc (distanceSquared c (sc ! a)) < 2 ^ 31"
    using trunc_bounds [OF distanceSquared_nonneg assms(1)] by simp_all
  have kb: "0 \<le> trunc (distanceSquared c (sc ! b))" "trunc (distanceSquared c (sc ! b)) < 2 ^ 31"
    using trunc_bounds [OF distanceSquared_nonneg assms(2)] by simp_all
  have ia: "int_of_float (distanceSquared c (sc ! a)) = Some (trunc (distanceSquared c (sc ! a)))"
    using assms(1) distanceSquared_nonneg [of c "sc ! a"] by (simp add: int_of_float_def)
  have ib: "int_of_float (distanceSquared c (sc ! b)) = Some (trunc (distanceSquared c (sc ! b)))"
    using assms(2) distanceSquared_nonneg [of c "sc ! b"] by (simp add: int_of_float_def)
  show ?thesis
    using ka kb by (simp add: elementSortFunc_def Let_def ia ib s32_def)
qed

lemma fold_pushGround_elements:
  "elements (fold (\<lambda>i. pushGround (f i)) xs R) = elements R"
  by (induction xs arbitrary: R) (simp_all add: pushGround_def)

lemma delaunay_elements: "delaunay dl R = Some R' \<Longrightarrow> elements R' = elements R"
  by (auto simp: delaunay_def Let_def fold_pushGround_elements)

lemma delaunay_no_triangles: "\<exists>R'. delaunay (\<lambda>ps. []) R = Some R'"
  by (simp add: delaunay_def Let_def)

lemma threeElems_collected:
  "collectLandscape (landscape threeElems) (elements threeElems) (b32 (vx origin))
     (b32 (vy origin)) (b32 (vz origin)) (b32 1) = [0, 1, 2]"
  by (simp add: threeElems_def origin_def collectLandscape_def checker2x2_def Let_def
      farElem_def nearElem_def midElem_def LandscapeElement0_def inRange_def numeral_3_eq_3
      b32_one b32_numeral)

lemma threeElems_distances:
  "distanceSquared \<lparr>vx = b32 (vx origin), vy = b32 (vy origin), vz = b32 (vz origin)\<rparr>
     (scape (landscape threeElems) ! 0) = 100"
  "distanceSquared \<lparr>vx = b32 (vx origin), vy = b32 (vy origin), vz = b32 (vz origin)\<rparr>
     (scape (landscape threeElems) ! 1) = 1"
  "distanceSquared \<lparr>vx = b32 (vx origin), vy = b32 (vy origin), vz = b32 (vz origin)\<rparr>
     (scape (landscape threeElems) ! 2) = 25"
  "distanceSquared \<lparr>vx = b32 (vx origin), vy = b32 (vy origin), vz = b32 (vz origin)\<rparr>
     (scape (landscape threeElems) ! Suc 0) = 1"
  by (simp_all add: threeElems_def origin_def distanceSquared_def Let_def farElem_def
      nearElem_def midElem_def LandscapeElement0_def b32_one b32_numeral)

lemma threeElems_sorted:
  "map_option elements (collectElements threeElems origin 1) = Some [1, 2, 0]"
proof -
  let ?c = "\<lparr>vx = b32 (vx origin), vy = b32 (vy origin), vz = b32 (vz origin)\<rparr>"
  let ?sc = "scape (landscape threeElems)"
  have k: "elementSortFunc ?sc ?c a b =
      Some (trunc (distanceSquared ?c (?sc ! a)) - trunc (distanceSquared ?c (?sc ! b)))"
    if "a \<in> {0, 1, 2}" "b \<in> {0, 1, 2}" for a b
    using that by (intro elementSortFunc_key) (auto simp: threeElems_distances)
  have "qsort (elementSortFunc ?sc ?c) [0, 1, 2] = Some [1, 2, 0]"
    by (simp add: k threeElems_distances trunc_def)
  then show ?thesis
    by (simp add: collectElements_def Let_def threeElems_collected)
qed

text \<open>
  C1, as stated, fails. With the camera at the origin and the three elements stored as
  far, near, middle (squared distances 100, 1 and 25, all within their cutoffs), the
  collected list after \<open>update\<close> is near, middle, far: the first entry is strictly nearer
  than the second.
\<close>

theorem collectElements_descending_counterexample:
  "map_option elements (update (\<lambda>ps. []) threeElems origin 1) = Some [1, 2, 0]
   \<and> ex (scape (landscape threeElems) ! 1) = 1 \<and> ex (scape (landscape threeElems) ! 2) = 5
   \<and> \<not> (ex (scape (landscape threeElems) ! 1) - vx origin)\<^sup>2
         \<ge> (ex (scape (landscape threeElems) ! 2) - vx origin)\<^sup>2"
proof -
  obtain R1 where R1: "collectElements threeElems origin 1 = Some R1" "elements R1 = [1, 2, 0]"
    using threeElems_sorted by (cases "collectElements threeElems origin 1") auto
  obtain R2 where R2: "delaunay (\<lambda>ps. []) R1 = Some R2"
    using delaunay_no_triangles by blast
  have "map_option elements (update (\<lambda>ps. []) threeElems origin 1) = Some [1, 2, 0]"
    using R1 R2 delaunay_elements [OF R2] by (simp add: update_def)
  then show ?thesis
    by (simp add: threeElems_def nearElem_def midElem_def farElem_def LandscapeElement0_def
        origin_def)
qed

text \<open>
  C1, amended. The comparison function returns \<open>(int)d0 - (int)d1\<close>, where \<open>d0\<close> and \<open>d1\<close>
  are the squared camera distances of its two arguments as it computes them in
  \<^verbatim>\<open>float\<close>. So \<^verbatim>\<open>qsort\<close> orders the collected list by ascending truncated squared
  distance, nearest first (as the comment at the call says): for every camera position
  and every pair of adjacent entries, the integer part of the earlier entry's squared
  camera distance is at most that of the later entry's. The sorted list is a
  rearrangement of what \<open>collectLandscape\<close> delivered, and the triangulation step of
  \<open>update\<close> leaves it as it is. This holds provided the squared distance of every
  collected element is below \<open>2^31\<close>; from there on the conversion to \<^verbatim>\<open>int\<close> is
  undefined, and with it the sort.
\<close>

theorem collectElements_ascending:
  fixes R :: LandscapeRaw and c :: Vector and s :: real
  defines "cam \<equiv> \<lparr>vx = b32 (vx c), vy = b32 (vy c), vz = b32 (vz c)\<rparr>"
  defines "collected \<equiv> collectLandscape (landscape R) (elements R) (b32 (vx c)) (b32 (vy c))
                          (b32 (vz c)) (b32 s)"
  assumes fit: "list_all (\<lambda>p. distanceSquared cam (scape (landscape R) ! p) < 2 ^ 31) collected"
  shows "\<exists>R'. collectElements R c s = Some R'
           \<and> (\<forall>i. Suc i < length (elements R') \<longrightarrow>
                  trunc (distanceSquared cam (scape (landscape R) ! (elements R' ! i)))
                  \<le> trunc (distanceSquared cam (scape (landscape R) ! (elements R' ! Suc i))))
           \<and> mset (elements R') = mset collected
           \<and> (\<forall>R''. update dl R c s = Some R'' \<longrightarrow> elements R'' = elements R')"
proof -
  define key where "key = (\<lambda>p. trunc (distanceSquared cam (scape (landscape R) ! p)))"
  have cmp: "elementSortFunc (scape (landscape R)) cam a b = Some (key a - key b)"
    if "a \<in> set collected" "b \<in> set collected" for a b
    using that fit unfolding key_def by (intro elementSortFunc_key) (auto simp: list_all_iff)
  obtain es where es: "qsort (elementSortFunc (scape (landscape R)) cam) collected = Some es"
    "mset es = mset collected" "sorted (map key es)"
    using qsort_ok [of "set collected" "elementSortFunc (scape (landscape R)) cam" key collected]
      cmp by blast
  have ce: "collectElements R c s = Some (R\<lparr>elements := es\<rparr>)"
    using es(1) by (simp add: collectElements_def Let_def cam_def collected_def)
  have adj: "\<forall>i. Suc i < length es \<longrightarrow> key (es ! i) \<le> key (es ! Suc i)"
    using es(3) by (auto simp: sorted_iff_nth_Suc)
  have upd: "\<forall>R''. update dl R c s = Some R'' \<longrightarrow> elements R'' = es"
    using delaunay_elements [of dl "R\<lparr>elements := es\<rparr>"] by (auto simp: update_def ce)
  show ?thesis using ce adj es(2) upd unfolding key_def by simp
qed

theorem collectElements_ascending_witness:
  "collectLandscape (landscape threeElems) (elements threeElems) (b32 (vx origin))
     (b32 (vy origin)) (b32 (vz origin)) (b32 1) = [0, 1, 2]
   \<and> distanceSquared \<lparr>vx = b32 (vx origin), vy = b32 (vy origin), vz = b32 (vz origin)\<rparr>
        (scape (landscape threeElems) ! 0) = 100
   \<and> distanceSquared \<lparr>vx = b32 (vx origin), vy = b32 (vy origin), vz = b32 (vz origin)\<rparr>
        (scape (landscape threeElems) ! 1) = 1
   \<and> distanceSquared \<lparr>vx = b32 (vx origin), vy = b32 (vy origin), vz = b32 (vz origin)\<rparr>
        (scape (landscape threeElems) ! 2) = 25
   \<and> (100 :: real) < 2 ^ 31
   \<and> map_option elements (collectElements threeElems origin 1) = Some [1, 2, 0]
   \<and> mset [1, 2, 0] = mset [0, 1, 2 :: nat]"
proof -
  let ?c = "\<lparr>vx = b32 (vx origin), vy = b32 (vy origin), vz = b32 (vz origin)\<rparr>"
  have fit: "list_all (\<lambda>p. distanceSquared ?c (scape (landscape threeElems) ! p) < 2 ^ 31)
      (collectLandscape (landscape threeElems) (elements threeElems) (b32 (vx origin))
         (b32 (vy origin)) (b32 (vz origin)) (b32 1))"
    by (simp add: threeElems_collected threeElems_distances)
  from collectElements_ascending [OF fit, of "\<lambda>ps. []"]
  obtain R' where R': "collectElements threeElems origin 1 = Some R'"
    "mset (elements R') = mset [0, 1, 2]"
    by (auto simp: threeElems_collected)
  have "map_option elements (collectElements threeElems origin 1) = Some [1, 2, 0]"
    by (rule threeElems_sorted)
  moreover have "mset [1, 2, 0] = mset [0, 1, 2 :: nat]"
    using R' calculation by simp
  ultimately show ?thesis
    by (simp add: threeElems_collected threeElems_distances)
qed


section \<open>Height interpolation on the 2 by 2 map\<close>

text \<open>
  C2, as stated, fails: \<open>getHeight(0.5, 0.5)\<close> is not within 0.01 of 50.
\<close>

theorem getHeight_center_counterexample:
  "\<not> \<bar>getHeight checker2x2 (1/2) (1/2) 0 0 - 50\<bar> \<le> 1/100"
  by (simp add: getHeight_def checker2x2_def Let_def)

text \<open>
  C2, amended. On this map the world position \<open>(0.5, 0.5)\<close> is the corner of cell
  \<open>(1, 1)\<close> with fractional parts zero; the neighbours to the right and below are
  clamped onto the same cell, whose value is 0. \<open>getHeight(0.5, 0.5)\<close> returns 0.0
  exactly; the value 50.0 is returned in the middle of cell \<open>(0, 0)\<close>, at
  \<open>(0.25, 0.25)\<close>.
\<close>

theorem getHeight_center:
  "getHeight checker2x2 (1/2) (1/2) 0 0 = 0 \<and> getHeight checker2x2 (1/4) (1/4) 0 0 = 50"
  by (simp add: getHeight_def checker2x2_def Let_def)


section \<open>The sub-cell position of a threshold\<close>

text \<open>
  C6, as stated, fails. For \<open>center = 256\<close>, \<open>left = 128\<close>, \<open>threshold = 192\<close> the
  stated formula gives \<open>-1.5\<close>, and \<open>hitThresh\<close> returns \<open>-0.5\<close> (the value its comment
  announces).
\<close>

theorem hitThresh_formula_counterexample:
  "(128::real) < 192 \<and> (192::real) \<le> 256
   \<and> hitThresh 256 128 512 192 = - 1/2
   \<and> hitThresh 256 128 512 192 \<noteq> - (256 - 192) / ((192 - 128) + (256 - 192)) - 1"
  by (simp add: hitThresh_def)

text \<open>
  C6, amended. For \<open>left < threshold \<le> center\<close> the returned position is
  \<open>- (center - threshold) / ((threshold - left) + (center - threshold))\<close>, without the
  further \<open>- 1\<close>; it is the same as \<open>(threshold - left) / (center - left) - 1\<close>, and it
  lies in \<open>[-1, 0]\<close>.
\<close>

theorem hitThresh_left:
  assumes "left < thresh" and "thresh \<le> center"
  shows "hitThresh center left right thresh =
           - (center - thresh) / ((thresh - left) + (center - thresh))
         \<and> hitThresh center left right thresh = (thresh - left) / (center - left) - 1
         \<and> - 1 \<le> hitThresh center left right thresh
         \<and> hitThresh center left right thresh \<le> 0"
  using assms by (auto simp: hitThresh_def Let_def field_simps)

theorem hitThresh_left_witness:
  "(128::real) < 192 \<and> (192::real) \<le> 256
   \<and> hitThresh 256 128 512 192 = - (256 - 192) / ((192 - 128) + (256 - 192))
   \<and> - 1 \<le> hitThresh 256 128 512 192 \<and> hitThresh 256 128 512 192 \<le> 0"
  using hitThresh_left [of 128 192 256 512] by simp


section \<open>The frame of putHeight\<close>








section \<open>collideLine along a segment\<close>

lemma sample_Suc:
  "sample x0 z0 xd zd step (Suc k) = advance xd zd step (sample x0 z0 xd zd step k)"
  by (simp add: sample_def)

lemma collideLoop_step:
  "collideLoop C x0 z0 xd zd d step (fst (sample x0 z0 xd zd step k)) (snd (sample x0 z0 xd zd step k)) =
    (if pastEnd x0 z0 d (sample x0 z0 xd zd step (Suc k)) then
       (if isPoint C (fst (sample x0 z0 xd zd step (Suc k))) (snd (sample x0 z0 xd zd step (Suc k)))
        then Some (hitAt C (fst (sample x0 z0 xd zd step k)) (snd (sample x0 z0 xd zd step k)))
        else Some noHit)
     else if isPoint C (fst (sample x0 z0 xd zd step (Suc k))) (snd (sample x0 z0 xd zd step (Suc k)))
       then Some (hitAt C (fst (sample x0 z0 xd zd step k)) (snd (sample x0 z0 xd zd step k)))
     else collideLoop C x0 z0 xd zd d step
            (fst (sample x0 z0 xd zd step (Suc k))) (snd (sample x0 z0 xd zd step (Suc k))))"
  by (subst collideLoop.simps) (simp add: Let_def sample_Suc advance_def pastEnd_def)

lemma collideLoop_find:
  assumes past: "pastEnd x0 z0 d (sample x0 z0 xd zd step N)"
    and before: "\<And>j. 0 < j \<Longrightarrow> j < N \<Longrightarrow> \<not> pastEnd x0 z0 d (sample x0 z0 xd zd step j)"
  shows "k < N \<Longrightarrow>
    collideLoop C x0 z0 xd zd d step (fst (sample x0 z0 xd zd step k)) (snd (sample x0 z0 xd zd step k)) =
      Some (case List.find (\<lambda>j. isPoint C (fst (sample x0 z0 xd zd step j))
                                       (snd (sample x0 z0 xd zd step j)))
                   [Suc k..<Suc N] of
              None \<Rightarrow> noHit
            | Some j \<Rightarrow> hitAt C (fst (sample x0 z0 xd zd step (j - 1)))
                           (snd (sample x0 z0 xd zd step (j - 1))))"
proof (induction "N - k" arbitrary: k)
  case 0
  then show ?case by simp
next
  case (Suc n)
  have upt: "[Suc k..<Suc N] = Suc k # [Suc (Suc k)..<Suc N]"
    using Suc.prems by (simp add: upt_conv_Cons)
  show ?case
  proof (cases "Suc k = N")
    case True
    then have gt: "pastEnd x0 z0 d (sample x0 z0 xd zd step (Suc k))" using past by simp
    have e: "[Suc (Suc k)..<Suc N] = []" using True by simp
    show ?thesis
      by (subst collideLoop_step) (simp add: gt upt e del: upt_Suc)
  next
    case False
    then have lt: "Suc k < N" using Suc.prems by simp
    then have le: "\<not> pastEnd x0 z0 d (sample x0 z0 xd zd step (Suc k))"
      using before [of "Suc k"] by simp
    have n: "n = N - Suc k" using Suc.hyps(2) by simp
    show ?thesis
      by (subst collideLoop_step) (simp add: le upt Suc.hyps(1) [OF n lt] del: upt_Suc)
  qed
qed

text \<open>
  Two bounds on the test \<open>pastEnd\<close> that need no more than the monotonicity of the
  rounding: \<open>e\<close> is a number whose square is formed without rounding.
\<close>

lemma pastEnd_far:
  assumes e: "b64 (e * e) = e * e" "b64 e = e" "0 \<le> e"
    and far: "e \<le> b64 (fst p - x0)" and d: "d < e"
  shows "pastEnd x0 z0 d p"
proof -
  define dx where "dx = b64 (fst p - x0)"
  define dz where "dz = b64 (snd p - z0)"
  have "e * e \<le> dx * dx" using far e(3) unfolding dx_def by (intro mult_mono) simp_all
  then have "e * e \<le> b64 (dx * dx)" using b64_mono [of "e * e" "dx * dx"] e(1) by simp
  moreover have "0 \<le> b64 (dz * dz)" using b64_mono [of 0 "dz * dz"] by simp
  ultimately have "e * e \<le> b64 (dx * dx) + b64 (dz * dz)" by linarith
  then have "e * e \<le> b64 (b64 (dx * dx) + b64 (dz * dz))"
    using b64_mono [of "e * e" "b64 (dx * dx) + b64 (dz * dz)"] e(1) by simp
  then have "sqrt (e * e) \<le> sqrt (b64 (b64 (dx * dx) + b64 (dz * dz)))"
    by (simp only: real_sqrt_le_iff)
  then have "e \<le> sqrt (b64 (b64 (dx * dx) + b64 (dz * dz)))" using e(3) by simp
  then have "e \<le> b64 (sqrt (b64 (b64 (dx * dx) + b64 (dz * dz))))"
    using b64_mono [of e "sqrt (b64 (b64 (dx * dx) + b64 (dz * dz)))"] e(2) by simp
  then show ?thesis using d by (simp add: pastEnd_def Let_def dx_def dz_def)
qed

lemma pastEnd_near:
  assumes d: "b64 (d * d) = d * d" "b64 d = d" "0 \<le> d"
    and near: "\<bar>b64 (fst p - x0)\<bar> \<le> d" and z: "snd p = z0"
  shows "\<not> pastEnd x0 z0 d p"
proof -
  define dx where "dx = b64 (fst p - x0)"
  have "dx * dx = \<bar>dx\<bar> * \<bar>dx\<bar>" by simp
  also have "\<dots> \<le> d * d" using near unfolding dx_def by (intro mult_mono) simp_all
  finally have "b64 (dx * dx) \<le> d * d" using b64_mono [of "dx * dx" "d * d"] d(1) by simp
  then have "b64 (b64 (dx * dx)) \<le> d * d" using b64_mono [of "b64 (dx * dx)" "d * d"] d(1) by simp
  then have "sqrt (b64 (b64 (dx * dx))) \<le> sqrt (d * d)" by (simp only: real_sqrt_le_iff)
  then have "sqrt (b64 (b64 (dx * dx))) \<le> d" using d(3) by simp
  then have "b64 (sqrt (b64 (b64 (dx * dx)))) \<le> d"
    using b64_mono [of "sqrt (b64 (b64 (dx * dx)))" d] d(2) by simp
  then show ?thesis by (simp add: pastEnd_def Let_def z dx_def)
qed

text \<open>
  The segment of the example runs along \<open>z = 0.5\<close> on the open field, from
  \<open>x = 2.921875\<close> to \<open>x = 2.9921875\<close>. Its length is \<open>9/128\<close>, the direction is \<open>(1, 0)\<close>,
  the step is half of the \<^verbatim>\<open>double\<close> nearest to \<open>0.1\<close>.
\<close>

lemma sqrt_9_128: "sqrt (81 / 16384) = 9 / 128"
  using real_sqrt_abs [of "9 / 128"] by (simp add: power2_eq_square)

lemma ex_values:
  "b64 (9 / 128) = 9 / 128" "b64 (81 / 16384) = 81 / 16384" "b64 (1 / 2) = 1 / 2"
  "b64 (1 / 65536) = 1 / 65536" "b64 (3 / 32) = 3 / 32" "b64 (9 / 1024) = 9 / 1024"
  "b64 (187 / 64) = 187 / 64"
  using b64_exact [of 9 "- 7"] b64_exact [of 81 "- 14"] b64_exact [of 1 "- 1"]
    b64_exact [of 1 "- 16"] b64_exact [of 3 "- 5"] b64_exact [of 9 "- 10"]
    b64_exact [of 187 "- 6"]
  by (simp_all add: pow2_def)

lemma ex_tenth: "b64 (1 / 10) = 3602879701896397 / 36028797018963968"
  using b64_near [of "- 4" "1 / 10" 7205759403792794] by (simp add: pow2_def)

lemma ex_step_value: "b64 (3602879701896397 / 72057594037927936) = 3602879701896397 / 72057594037927936"
  using b64_exact [of 3602879701896397 "- 56"] by (simp add: pow2_def)

lemma ex_length: "segLength (187/64) (1/2) (383/128) (1/2) = 9 / 128"
  by (simp add: segLength_def Let_def ex_values sqrt_9_128)

lemma ex_step: "segStep openField = 3602879701896397 / 72057594037927936"
  by (simp add: segStep_def openField_def Let_def b64_numeral b64_one ex_values ex_tenth
      ex_step_value)

lemma ex_threshold: "\<not> \<bar>9 / 128 :: real\<bar> < b64 0.00001"
proof -
  have "b64 0.00001 \<le> b64 (1 / 65536)" by (rule b64_mono) simp
  then show ?thesis by (simp add: ex_values)
qed

lemma ex_sums:
  "b64 (214146162281467085 / 72057594037927936) = 3346033785647923 / 1125899906842624"
  "b64 (217749041983363469 / 72057594037927936) = 1701164390495027 / 562949953421312"
  "b64 (56294995342131 / 1125899906842624) = 56294995342131 / 1125899906842624"
  "b64 (56294995342131 / 562949953421312) = 56294995342131 / 562949953421312"
  using b64_near [of 1 "214146162281467085 / 72057594037927936" 6692067571295846]
    b64_near [of 1 "217749041983363469 / 72057594037927936" 6804657561980108]
    b64_exact [of 56294995342131 "- 50"] b64_exact [of 56294995342131 "- 49"]
  by (simp_all add: pow2_def)

lemma ex_sample1:
  "sample (187/64) (1/2) 1 0 (3602879701896397 / 72057594037927936) (Suc 0) = (3346033785647923 / 1125899906842624, 1 / 2)"
  by (simp add: sample_def advance_def ex_step_value ex_values ex_sums)

lemma ex_sample2:
  "sample (187/64) (1/2) 1 0 (3602879701896397 / 72057594037927936) 2 = (1701164390495027 / 562949953421312, 1 / 2)"
  by (simp add: sample_def advance_def ex_step_value ex_values ex_sums numeral_2_eq_2)

lemma ex_near1:
  "\<not> pastEnd (187/64) (1/2) (9/128) (3346033785647923 / 1125899906842624, 1 / 2)"
  by (intro pastEnd_near) (simp_all add: ex_values ex_sums)

lemma ex_far2:
  "pastEnd (187/64) (1/2) (9/128) (1701164390495027 / 562949953421312, 1 / 2)"
  by (intro pastEnd_far [of "3 / 32"]) (simp_all add: ex_values ex_sums)

lemma ex_start: "\<not> isPoint openField (187/64) (1/2)"
  by (simp add: isPoint_def point_def openField_def u32_def Let_def)

lemma ex_end: "\<not> isPoint openField (383/128) (1/2)"
  by (simp add: isPoint_def point_def openField_def u32_def Let_def)

lemma ex_free1: "\<not> isPoint openField (3346033785647923 / 1125899906842624) (1/2)"
  by (simp add: isPoint_def point_def openField_def u32_def Let_def)

lemma ex_solid2: "isPoint openField (1701164390495027 / 562949953421312) (1/2)"
  by (simp add: isPoint_def point_def openField_def u32_def Let_def)

lemma ex_upt: "[Suc 0..<3] = [Suc 0, 2]"
  by (simp add: upt_rec)

lemma ex_before:
  "0 < j \<Longrightarrow> j < 2 \<Longrightarrow>
   \<not> pastEnd (187/64) (1/2) (9/128) (sample (187/64) (1/2) 1 0 (3602879701896397 / 72057594037927936) j)"
proof -
  assume "0 < j" "j < 2"
  then have "j = Suc 0" by simp
  then show ?thesis using ex_near1 by (simp add: ex_sample1)
qed

lemma ex_line:
  "collideLine openField (187/64) (1/2) (383/128) (1/2)
     = collideLoop openField (187/64) (1/2) 1 0 (9/128) (3602879701896397 / 72057594037927936) (187/64) (1/2)"
  using ex_start ex_threshold
  by (simp add: collideLine_def Let_def ex_length ex_step ex_values b64_one)

lemma ex_loop:
  "collideLoop openField (187/64) (1/2) 1 0 (9/128) (3602879701896397 / 72057594037927936) (187/64) (1/2)
     = Some (hitAt openField (3346033785647923 / 1125899906842624) (1/2))"
proof -
  have past: "pastEnd (187/64) (1/2) (9/128) (sample (187/64) (1/2) 1 0 (3602879701896397 / 72057594037927936) 2)"
    using ex_far2 by (simp add: ex_sample2)
  have "collideLoop openField (187/64) (1/2) 1 0 (9/128) (3602879701896397 / 72057594037927936)
          (fst (sample (187/64) (1/2) 1 0 (3602879701896397 / 72057594037927936) 0))
          (snd (sample (187/64) (1/2) 1 0 (3602879701896397 / 72057594037927936) 0))
        = Some (hitAt openField (3346033785647923 / 1125899906842624) (1/2))"
    using ex_free1 ex_solid2
    by (subst collideLoop_find [OF past ex_before, of 0])
       (simp_all add: ex_upt ex_sample1 ex_sample2)
  then show ?thesis by (simp add: sample_def)
qed

text \<open>
  C4, as stated, fails. On the open field take the segment from \<open>(2.921875, 0.5)\<close> to
  \<open>(2.9921875, 0.5)\<close>, of length \<open>0.0703125\<close>; the step is \<open>0.05\<close>. Start and end are on
  free ground. The first sample, at \<open>x = 2.971875\<close>, is within the length and free. The
  second, at \<open>x = 3.0218749999999996\<close>, lies beyond the end point and reads 255:
  \<open>collideLine\<close> reports a hit, at the first sample, although no sample is solid before
  the ray has exceeded its length.
\<close>

theorem collideLine_overshoot_counterexample:
  "\<not> isPoint openField (187/64) (1/2) \<and> \<not> isPoint openField (383/128) (1/2)
   \<and> \<not> isPoint openField (3346033785647923 / 2 ^ 50) (1/2)
   \<and> (383/128 :: real) < 1701164390495027 / 2 ^ 49
   \<and> isPoint openField (1701164390495027 / 2 ^ 49) (1/2)
   \<and> map_option hit (collideLine openField (187/64) (1/2) (383/128) (1/2)) = Some True
   \<and> map_option xh (collideLine openField (187/64) (1/2) (383/128) (1/2))
       = Some (3346033785647923 / 2 ^ 50)
   \<and> map_option zh (collideLine openField (187/64) (1/2) (383/128) (1/2)) = Some (1/2)"
  using ex_start ex_end ex_free1 ex_solid2
  by (simp add: ex_line [simplified] ex_loop hitAt_def)

text \<open>
  C4, amended. Let the start be free. The samples are the positions that the loop
  accumulates in \<^verbatim>\<open>double\<close>, one rounded addition of \<open>direction * step\<close> per pass, and
  sample \<open>N\<close> is the first whose distance from the start, as the loop computes it,
  exceeds the length \<open>d\<close> of the segment; that sample past the end point is tested like
  the others. If \<open>d < 0.00001\<close>, \<open>collideLine\<close> returns no hit. Otherwise it returns, and
  reports no hit if none of the samples \<open>1..N\<close> is solid, and else a hit at the sample
  before the first solid one, with the normal taken there. So a hit is returned only when
  the first solid sample comes no later than the first sample past the end point.
\<close>

theorem collideLine_samples:
  fixes C :: LandscapeCollision and x0 z0 x1 z1 :: real and N :: nat
  defines "d \<equiv> segLength x0 z0 x1 z1"
  defines "s \<equiv> sample x0 z0 (b64 (b64 (x1 - x0) / d)) (b64 (b64 (z1 - z0) / d)) (segStep C)"
  assumes start: "point C x0 z0 < 128"
  shows "(\<bar>d\<bar> < b64 0.00001 \<longrightarrow> collideLine C x0 z0 x1 z1 = Some noHit)
       \<and> (\<not> \<bar>d\<bar> < b64 0.00001 \<and> 0 < N \<and> pastEnd x0 z0 d (s N)
            \<and> (\<forall>j. 0 < j \<and> j < N \<longrightarrow> \<not> pastEnd x0 z0 d (s j))
          \<longrightarrow> collideLine C x0 z0 x1 z1 =
                Some (case List.find (\<lambda>j. isPoint C (fst (s j)) (snd (s j))) [1..<Suc N] of
                        None \<Rightarrow> noHit
                      | Some j \<Rightarrow> hitAt C (fst (s (j - 1))) (snd (s (j - 1)))))"
proof (intro conjI impI)
  assume "\<bar>d\<bar> < b64 0.00001"
  then show "collideLine C x0 z0 x1 z1 = Some noHit"
    using start by (simp add: collideLine_def isPoint_def Let_def d_def noHit_def)
next
  assume a: "\<not> \<bar>d\<bar> < b64 0.00001 \<and> 0 < N \<and> pastEnd x0 z0 d (s N)
            \<and> (\<forall>j. 0 < j \<and> j < N \<longrightarrow> \<not> pastEnd x0 z0 d (s j))"
  have s0: "s 0 = (x0, z0)" by (simp add: s_def sample_def)
  have "collideLine C x0 z0 x1 z1 =
      collideLoop C x0 z0 (b64 (b64 (x1 - x0) / d)) (b64 (b64 (z1 - z0) / d)) d (segStep C)
        (fst (s 0)) (snd (s 0))"
    using start a by (simp add: collideLine_def isPoint_def Let_def d_def s0)
  also have "\<dots> = Some (case List.find (\<lambda>j. isPoint C (fst (s j)) (snd (s j))) [Suc 0..<Suc N] of
                        None \<Rightarrow> noHit
                      | Some j \<Rightarrow> hitAt C (fst (s (j - 1))) (snd (s (j - 1))))"
    unfolding s_def using a by (intro collideLoop_find) (simp_all add: s_def)
  finally show "collideLine C x0 z0 x1 z1 =
                Some (case List.find (\<lambda>j. isPoint C (fst (s j)) (snd (s j))) [1..<Suc N] of
                        None \<Rightarrow> noHit
                      | Some j \<Rightarrow> hitAt C (fst (s (j - 1))) (snd (s (j - 1))))"
    by simp
qed

theorem collideLine_samples_witness:
  "point openField (187/64) (1/2) < 128
   \<and> segLength (187/64) (1/2) (383/128) (1/2) = 9 / 128
   \<and> \<not> \<bar>9 / 128 :: real\<bar> < b64 0.00001
   \<and> segStep openField = 3602879701896397 / 2 ^ 56
   \<and> sample (187/64) (1/2) 1 0 (3602879701896397 / 2 ^ 56) 1 = (3346033785647923 / 2 ^ 50, 1 / 2)
   \<and> sample (187/64) (1/2) 1 0 (3602879701896397 / 2 ^ 56) 2 = (1701164390495027 / 2 ^ 49, 1 / 2)
   \<and> \<not> pastEnd (187/64) (1/2) (9/128) (3346033785647923 / 2 ^ 50, 1 / 2)
   \<and> pastEnd (187/64) (1/2) (9/128) (1701164390495027 / 2 ^ 49, 1 / 2)
   \<and> \<not> isPoint openField (3346033785647923 / 2 ^ 50) (1/2)
   \<and> isPoint openField (1701164390495027 / 2 ^ 49) (1/2)
   \<and> collideLine openField (187/64) (1/2) (383/128) (1/2)
       = Some (hitAt openField (3346033785647923 / 2 ^ 50) (1/2))"
proof -
  have a: "point openField (187/64) (1/2) < 128"
    using ex_start by (simp add: isPoint_def)
  have dir: "b64 (b64 (383/128 - 187/64) / (9/128)) = 1" "b64 (b64 (1/2 - 1/2) / (9/128)) = 0"
    by (simp_all add: ex_values b64_one)
  have before: "\<forall>j. 0 < j \<and> j < (2::nat) \<longrightarrow>
      \<not> pastEnd (187/64) (1/2) (9/128) (sample (187/64) (1/2) 1 0 (3602879701896397 / 72057594037927936) j)"
    using ex_before by blast
  have past: "pastEnd (187/64) (1/2) (9/128) (sample (187/64) (1/2) 1 0 (3602879701896397 / 72057594037927936) 2)"
    using ex_far2 by (simp add: ex_sample2)
  note T = collideLine_samples [OF a, of "383/128" "1/2" 2, unfolded ex_length dir ex_step]
  have "collideLine openField (187/64) (1/2) (383/128) (1/2)
       = Some (hitAt openField (3346033785647923 / 1125899906842624) (1/2))"
    using T ex_threshold before past ex_free1 ex_solid2
    by (simp add: ex_sample1 ex_sample2 ex_upt)
  with a ex_length ex_threshold ex_step ex_sample1 ex_sample2 ex_near1 ex_far2 ex_free1 ex_solid2
  show ?thesis by simp
qed


section \<open>Draws from the random stream\<close>

lemma fold_rng_count:
  assumes "\<And>x s. snd (f x s) = snd s + c"
  shows "snd (fold f xs s) = snd s + c * length xs"
  by (induction xs arbitrary: s) (simp_all add: assms algebra_simps)

lemma setTrees_cell_rng: "snd (setTrees_cell R msk m w h rm z x s) = snd s + 6"
  by (simp add: setTrees_cell_def rand_def Let_def split_def)

lemma setGrass_cell_rng: "snd (setGrass_cell R msk m w h rm z x s) = snd s + 7"
  by (simp add: setGrass_cell_def rand_def Let_def split_def)

lemma setFlowers_cell_rng: "snd (setFlowers_cell R msk m w h rm z x s) = snd s + 7"
  by (simp add: setFlowers_cell_def rand_def Let_def split_def)

lemma rows_rng_count:
  assumes "\<And>z x s. snd (f z x s) = snd s + c"
  shows "snd (fold (\<lambda>z. fold (f z) [0..<w]) [0..<h] s) = snd s + c * (w * h)"
proof -
  have row: "snd (fold (f z) [0..<w] s) = snd s + c * w" for z s
    using fold_rng_count [of "f z" c "[0..<w]" s] assms by simp
  show ?thesis
    using fold_rng_count [of "\<lambda>z. fold (f z) [0..<w]" "c * w" "[0..<h]" s] row
    by (simp add: algebra_simps)
qed

text \<open>
  C3, as stated, fails for \<open>setTrees\<close>: a cell of \<open>setTrees\<close> takes six draws, not seven.
  On a 1 by 1 map whose only cell is unmasked and present, with the stream
  \<open>0, 1, 2, \<dots>\<close>, the tree is placed and the generator has advanced by 6.
\<close>

theorem setTrees_draws_counterexample:
  "snd (setTrees_cell (\<lambda>k. k) [0] [1] 1 1 1 0 0 (checker2x2, 0)) = 6
   \<and> snd (setTrees_cell (\<lambda>k. k) [0] [1] 1 1 1 0 0 (checker2x2, 0)) \<noteq> 7
   \<and> length (scape (fst (setTrees_cell (\<lambda>k. k) [0] [1] 1 1 1 0 0 (checker2x2, 0)))) = 1"
  by (simp add: setTrees_cell_def rand_def Let_def split_def c_rem_def push_back_def
      checker2x2_def)

text \<open>
  C3, amended. For every cell \<open>(x, z)\<close> visited during the scan, \<open>setTrees\<close> draws exactly
  6 samples, and \<open>setGrass\<close> and \<open>setFlowers\<close> draw exactly 7 samples each, from the
  stream reseeded at the start of the call, regardless of the mask test, the
  layer-present test, or whether an element is placed. A whole call therefore leaves the
  generator at \<open>6 * w * h\<close>, respectively \<open>7 * w * h\<close>, draws after the reseed, whatever
  its state was before.
\<close>

theorem draws_per_cell:
  "snd (setTrees_cell R msk m w h rm z x (L, g)) = g + 6
   \<and> snd (setGrass_cell R msk m w h rm z x (L, g)) = g + 7
   \<and> snd (setFlowers_cell R msk m w h rm z x (L, g)) = g + 7
   \<and> snd (setTrees R msk m w h rm (L, g)) = 6 * (w * h)
   \<and> snd (setGrass R msk m w h rm (L, g)) = 7 * (w * h)
   \<and> snd (setFlowers R msk m w h rm (L, g)) = 7 * (w * h)"
proof -
  have "snd (setTrees R msk m w h rm (L, g)) = 6 * (w * h)"
    unfolding setTrees_def
    using rows_rng_count [of "setTrees_cell R msk m w h rm" 6 w h "(L, srand0)"]
    by (simp add: setTrees_cell_rng srand0_def)
  moreover have "snd (setGrass R msk m w h rm (L, g)) = 7 * (w * h)"
    unfolding setGrass_def
    using rows_rng_count [of "setGrass_cell R msk m w h rm" 7 w h "(L, srand0)"]
    by (simp add: setGrass_cell_rng srand0_def)
  moreover have "snd (setFlowers R msk m w h rm (L, g)) = 7 * (w * h)"
    unfolding setFlowers_def
    using rows_rng_count [of "setFlowers_cell R msk m w h rm" 7 w h "(L, srand0)"]
    by (simp add: setFlowers_cell_rng srand0_def)
  ultimately show ?thesis
    by (simp add: setTrees_cell_rng setGrass_cell_rng setFlowers_cell_rng)
qed


section \<open>The invariant on generated elements\<close>























































lemma length_resize: "length (resize n xs) = n"
  by (simp add: resize_def)



text \<open>
  \<open>setHeightMap\<close> runs to its end when the strides are positive and divide the raster
  dimensions: the scan then visits \<open>(w / stepX) * (h / stepZ)\<close> cells, as many as the
  first resize reserves.
\<close>

lemma strideLoop_total_aux:
  "0 < step \<Longrightarrow> step dvd x \<Longrightarrow> step dvd w \<Longrightarrow> x \<le> w \<Longrightarrow> I x s \<Longrightarrow>
   \<forall>x s. x < w \<longrightarrow> step dvd x \<longrightarrow> I x s \<longrightarrow> (\<exists>s'. body x s = Some s' \<and> I (x + step) s') \<Longrightarrow>
   \<exists>s'. strideLoop x w step body s = Some s' \<and> I w s'"
proof (induction x w step body s rule: strideLoop.induct)
  case (1 x w step body s)
  show ?case
  proof (cases "x < w")
    case False
    then have xw: "x = w" using "1.prems"(4) by simp
    have "strideLoop x w step body s = Some s"
      using False by (simp add: strideLoop.simps [of x])
    then show ?thesis using "1.prems"(5) xw by simp
  next
    case True
    then obtain s1 where b: "body x s = Some s1" and i: "I (x + step) s1"
      using "1.prems"(2,5,6) by blast
    have st: "step \<noteq> 0" using "1.prems"(1) by simp
    have d: "step dvd x + step" using "1.prems"(2) by simp
    have le: "x + step \<le> w"
    proof -
      obtain a where a: "x = step * a" using "1.prems"(2) by (auto simp: dvd_def)
      obtain c where c: "w = step * c" using "1.prems"(3) by (auto simp: dvd_def)
      have "a < c" using True "1.prems"(1) unfolding a c by simp
      then have "a + 1 \<le> c" by simp
      then have "step * (a + 1) \<le> step * c" by (rule mult_le_mono2)
      then show ?thesis unfolding a c by simp
    qed
    from "1.IH" [OF True st b "1.prems"(1) d "1.prems"(3) le i "1.prems"(6)]
    obtain s' where "strideLoop (x + step) w step body s1 = Some s'" "I w s'" by blast
    then show ?thesis using True st b by (simp add: strideLoop.simps [of x])
  qed
qed

lemma setHeightMap_cell_returns:
  assumes "snd s < length (scape (fst s))"
  shows "\<exists>s'. setHeightMap_cell msk m w h stepX stepZ distFact steepThresh boden tz z x s = Some s'
           \<and> length (scape (fst s')) = length (scape (fst s)) \<and> snd s' \<le> snd s + 1"
  using assms by (cases s) (auto simp: setHeightMap_cell_def Let_def)

lemma multiple_div_less:
  fixes x w step :: nat
  assumes "0 < step" "step dvd x" "step dvd w" "x < w"
  shows "x div step + 1 \<le> w div step"
proof -
  obtain a where a: "x = step * a" using assms(2) by (auto simp: dvd_def)
  obtain c where c: "w = step * c" using assms(3) by (auto simp: dvd_def)
  have "a < c" using assms(1,4) unfolding a c by simp
  then show ?thesis using assms(1) unfolding a c by simp
qed

lemma setHeightMap_row_returns:
  fixes w h sx sz k0 z :: nat
  assumes sx: "0 < sx" "sx dvd w" and sz: "0 < sz" "sz dvd h" and z: "z < h" "sz dvd z"
    and s: "length (scape (fst s)) = k0 + (w div sx) * (h div sz)"
           "snd s \<le> k0 + (z div sz) * (w div sx)"
  shows "\<exists>s'. strideLoop 0 w sx
                (setHeightMap_cell msk m w h stepX stepZ distFact steepThresh boden tz z) s = Some s'
           \<and> length (scape (fst s')) = k0 + (w div sx) * (h div sz)
           \<and> snd s' \<le> k0 + ((z + sz) div sz) * (w div sx)"
proof -
  define len where "len = k0 + (w div sx) * (h div sz)"
  define b where "b = k0 + (z div sz) * (w div sx)"
  define I where "I = (\<lambda>x (t :: Landscape \<times> nat). length (scape (fst t)) = len \<and> snd t \<le> b + x div sx)"
  have zrow: "z div sz + 1 \<le> h div sz"
    by (rule multiple_div_less [OF sz(1) z(2) sz(2) z(1)])
  have room: "b + w div sx \<le> len"
  proof -
    have "(z div sz + 1) * (w div sx) \<le> (h div sz) * (w div sx)"
      using zrow by (rule mult_le_mono1)
    then show ?thesis by (simp add: b_def len_def algebra_simps)
  qed
  have step: "\<forall>x t. x < w \<longrightarrow> sx dvd x \<longrightarrow> I x t \<longrightarrow>
     (\<exists>t'. setHeightMap_cell msk m w h stepX stepZ distFact steepThresh boden tz z x t = Some t'
                  \<and> I (x + sx) t')"
  proof (intro allI impI)
    fix x t assume that: "x < w" "sx dvd x" "I x t"
    have col: "x div sx + 1 \<le> w div sx"
      by (rule multiple_div_less [OF sx(1) that(2) sx(2) that(1)])
    have "snd t < length (scape (fst t))"
      using that(3) col room unfolding I_def by linarith
    from setHeightMap_cell_returns [OF this]
    obtain t' where c: "setHeightMap_cell msk m w h stepX stepZ distFact steepThresh boden tz z x t = Some t'"
      and l: "length (scape (fst t')) = length (scape (fst t))" and k: "snd t' \<le> snd t + 1"
      by blast
    have "(x + sx) div sx = x div sx + 1" using sx(1) by simp
    then have "I (x + sx) t'" using that(3) l k unfolding I_def by simp
    with c show "\<exists>t'. setHeightMap_cell msk m w h stepX stepZ distFact steepThresh boden tz z x t = Some t'
                  \<and> I (x + sx) t'" by blast
  qed
  have "I 0 s" using s by (simp add: I_def len_def b_def)
  from strideLoop_total_aux [of sx 0 w I s, OF sx(1) _ sx(2) _ this step]
  obtain s' where r: "strideLoop 0 w sx
       (setHeightMap_cell msk m w h stepX stepZ distFact steepThresh boden tz z) s = Some s'"
    and i: "I w s'" by blast
  have "(z + sz) div sz = z div sz + 1" using sz(1) by simp
  then have "snd s' \<le> k0 + ((z + sz) div sz) * (w div sx)"
    using i by (simp add: I_def b_def algebra_simps)
  with r i show ?thesis by (simp add: I_def len_def)
qed

lemma setHeightMap_returns:
  assumes "0 < stepX" "0 < stepZ" "nat stepX dvd w" "nat stepZ dvd h"
  shows "\<exists>L'. setHeightMap msk m w h stepX stepZ distFact steepThresh boden L = Some L'"
proof -
  define sx where "sx = nat stepX"
  define sz where "sz = nat stepZ"
  have sx: "0 < sx" "sx dvd w" and sz: "0 < sz" "sz dvd h"
    using assms by (simp_all add: sx_def sz_def)
  define L0 where "L0 = L\<lparr>map_boden := boden, map_height := m, map_height_w := w, map_height_h := h\<rparr>"
  define k0 where "k0 = length (scape L0)"
  define L1 where "L1 = L0\<lparr>scape := resize (k0 + (w div sx) * (h div sz)) (scape L0)\<rparr>"
  define J where "J = (\<lambda>z (t :: Landscape \<times> nat).
      length (scape (fst t)) = k0 + (w div sx) * (h div sz) \<and> snd t \<le> k0 + (z div sz) * (w div sx))"
  have init: "J 0 (L1, k0)"
    by (simp add: J_def L1_def length_resize)
  have row: "\<forall>z t. z < h \<longrightarrow> sz dvd z \<longrightarrow> J z t \<longrightarrow>
     (\<exists>t'. strideLoop 0 w sx
       (setHeightMap_cell msk m w h stepX stepZ distFact steepThresh boden (pow2div z h) z) t = Some t'
       \<and> J (z + sz) t')"
  proof (intro allI impI)
    fix z t assume that: "z < h" "sz dvd z" "J z t"
    show "\<exists>t'. strideLoop 0 w sx
       (setHeightMap_cell msk m w h stepX stepZ distFact steepThresh boden (pow2div z h) z) t = Some t'
       \<and> J (z + sz) t'"
      using setHeightMap_row_returns [OF sx sz that(1,2), of t k0] that(3) unfolding J_def by blast
  qed
  from strideLoop_total_aux [of sz 0 h J "(L1, k0)", OF sz(1) _ sz(2) _ init row]
  obtain s' where "strideLoop 0 h sz
      (\<lambda>z. strideLoop 0 w sx
         (setHeightMap_cell msk m w h stepX stepZ distFact steepThresh boden (pow2div z h) z))
      (L1, k0) = Some s'"
    by blast
  then show ?thesis
    using assms(1,2)
    by (simp add: setHeightMap_def Let_def L0_def [symmetric] k0_def [symmetric] sx_def [symmetric]
        sz_def [symmetric] L1_def [symmetric] split_def)
qed











section \<open>The round trip through the coordinate mapping\<close>

lemma sc_t1: "b64 10 = 10"
  using b64_exact [of 10 0] by (simp add: pow2_def)

lemma sc_t2: "b64 230 = 230"
  using b64_exact [of 230 0] by (simp add: pow2_def)

lemma sc_t3: "b64 (230 / 100) = 5179139571476070 / 2 ^ 51"
  using b64_near [of 1 "230 / 100" 5179139571476070] by (simp add: pow2_def)

lemma sc_t4: "b64 (5179139571476070 / 2 ^ 51) = 5179139571476070 / 2 ^ 51"
  using b64_exact [of 5179139571476070 "- 51"] by (simp add: pow2_def)

lemma sc_u2: "b64 (5179139571476070 / 2 ^ 51 * 100) = 8092405580431359 / 2 ^ 45"
  using b64_near [of 7 "5179139571476070 / 2 ^ 51 * 100" 8092405580431359] by (simp add: pow2_def)

lemma sc_u4: "b64 (8092405580431359 / 2 ^ 45 / 10) = 6473924464345087 / 2 ^ 48"
  using b64_near [of 4 "8092405580431359 / 2 ^ 45 / 10" 6473924464345087] by (simp add: pow2_def)

lemma sc_xPos: "xPos scenarioField 23 = 5179139571476070 / 2 ^ 51"
proof -
  have "xPos scenarioField 23 = b64 (b64 (b64 (23 * b64 10) / 100) + 0)"
    by (simp add: xPos_def scenarioField_def)
  also have "\<dots> = b64 (b64 (230 / 100))"
    by (simp only: sc_t1) (simp add: sc_t2)
  also have "\<dots> = 5179139571476070 / 2 ^ 51"
    by (simp only: sc_t3 sc_t4)
  finally show ?thesis .
qed

lemma sc_xCoord: "xCoord scenarioField (5179139571476070 / 2 ^ 51) = 22"
proof -
  have "xCoord scenarioField (5179139571476070 / 2 ^ 51)
      = \<lfloor>b64 (b64 (b64 (5179139571476070 / 2 ^ 51 - 0) * 100) / b64 (10 - 0))\<rfloor>"
    by (simp add: xCoord_def scenarioField_def)
  also have "\<dots> = \<lfloor>b64 (b64 (b64 (5179139571476070 / 2 ^ 51) * 100) / b64 10)\<rfloor>"
    by simp
  also have "\<dots> = \<lfloor>b64 (8092405580431359 / 2 ^ 45 / 10)\<rfloor>"
    by (simp only: sc_t4 sc_u2 sc_t1)
  also have "\<dots> = \<lfloor>6473924464345087 / 2 ^ 48 :: real\<rfloor>"
    by (simp only: sc_u4)
  also have "\<dots> = 22"
    by simp
  finally show ?thesis .
qed

text \<open>
  C9. The claim is what the two functions are documented to be: \<open>xPos\<close> gives ``the x
  coordinate of the element number'', \<open>xCoord\<close> ``the element number in x of the map by
  giving it a world X coordinate''. The code does not keep it. On the field of the
  collision scenarios (bounds \<open>0..10\<close>, 100 columns), column 23 is in range and the
  bounds are ordered, yet \<open>xPos 23\<close> is \<open>230 / 100\<close> rounded down to the \<^verbatim>\<open>double\<close>
  \<open>5179139571476070 / 2^51\<close>; \<open>xCoord\<close> multiplies it by 100, which rounds to a number
  just below 230, divides by 10, which gives \<open>22.999999999999996\<close>, and returns the floor
  of that: column 22.
\<close>

theorem xCoord_xPos_column_23:
  "(0::int) \<le> 23 \<and> 23 < width scenarioField \<and> cminX scenarioField < cmaxX scenarioField
   \<and> xPos scenarioField 23 = 5179139571476070 / 2 ^ 51
   \<and> xCoord scenarioField (xPos scenarioField 23) = 22"
proof -
  have a: "(0::int) \<le> 23 \<and> 23 < width scenarioField \<and> cminX scenarioField < cmaxX scenarioField"
    by (simp add: scenarioField_def)
  have b: "xCoord scenarioField (xPos scenarioField 23) = 22"
    by (simp only: sc_xPos sc_xCoord)
  show ?thesis using a b sc_xPos by (simp only: simp_thms)
qed

end
